theory Spec2Isabelle
  imports Complex_Main "HOL-Library.Word" "HOL-Library.Sublist"
begin

unbundle bit_operations_syntax

section \<open>Collision pair filter (PhysicsScene.cpp, FilterShader)\<close>

text \<open>
  The filter object attributes and the filter data words are unsigned 32-bit integers.
  The two attribute tests are the inline helpers of the PhysX API header
  (bit 4 marks a kinematic body, bit 5 a trigger shape); the filter only asks whether
  the bit is set.
\<close>

type_synonym PxFilterObjectAttributes = "32 word"

record PxFilterData =
  word0 :: "32 word"
  word1 :: "32 word"
  word2 :: "32 word"
  word3 :: "32 word"

definition PxFilterObjectIsKinematic :: "PxFilterObjectAttributes \<Rightarrow> bool" where
  "PxFilterObjectIsKinematic attr = (attr AND push_bit 4 1 \<noteq> 0)"

definition PxFilterObjectIsTrigger :: "PxFilterObjectAttributes \<Rightarrow> bool" where
  "PxFilterObjectIsTrigger attr = (attr AND push_bit 5 1 \<noteq> 0)"

text \<open>
  \<open>PxPairFlags\<close> is a set of pair flags; \<open>pairFlags |= f\<close> inserts \<open>f\<close>.
  The shader receives the flag set by reference and returns the filter flag.
\<close>

datatype PxPairFlag =
    eSOLVE_CONTACT
  | eMODIFY_CONTACTS
  | eNOTIFY_TOUCH_FOUND
  | eNOTIFY_TOUCH_PERSISTS
  | eNOTIFY_TOUCH_LOST
  | eNOTIFY_TOUCH_CCD
  | eNOTIFY_THRESHOLD_FORCE_FOUND
  | eNOTIFY_THRESHOLD_FORCE_PERSISTS
  | eNOTIFY_THRESHOLD_FORCE_LOST
  | eNOTIFY_CONTACT_POINTS
  | eDETECT_DISCRETE_CONTACT
  | eDETECT_CCD_CONTACT
  | ePRE_SOLVER_VELOCITY
  | ePOST_SOLVER_VELOCITY
  | eCONTACT_EVENT_POSE

datatype PxFilterFlag = eDEFAULT | eKILL | eSUPPRESS | eCALLBACK | eNOTIFY

definition FilterShader ::
  "PxFilterObjectAttributes \<Rightarrow> PxFilterData \<Rightarrow> PxFilterObjectAttributes \<Rightarrow> PxFilterData
     \<Rightarrow> PxPairFlag set \<Rightarrow> PxFilterFlag \<times> PxPairFlag set" where
  "FilterShader attributes0 filterData0 attributes1 filterData1 pairFlags =
    (if PxFilterObjectIsTrigger attributes0 \<or> PxFilterObjectIsTrigger attributes1 then
       (eDEFAULT,
        insert eDETECT_DISCRETE_CONTACT
          (insert eNOTIFY_TOUCH_LOST (insert eNOTIFY_TOUCH_FOUND pairFlags)))
     else if PxFilterObjectIsKinematic attributes0 \<and> PxFilterObjectIsKinematic attributes1 then
       (eSUPPRESS,
        insert eDETECT_DISCRETE_CONTACT
          (insert eNOTIFY_TOUCH_LOST
            (insert eNOTIFY_TOUCH_PERSISTS (insert eNOTIFY_TOUCH_FOUND pairFlags))))
     else if word0 filterData0 AND word1 filterData1 \<noteq> 0
           \<and> word0 filterData1 AND word1 filterData0 \<noteq> 0 then
       (eDEFAULT,
        insert eNOTIFY_CONTACT_POINTS
          (insert ePOST_SOLVER_VELOCITY
            (insert eNOTIFY_TOUCH_PERSISTS
              (insert eNOTIFY_TOUCH_FOUND
                (insert eDETECT_DISCRETE_CONTACT (insert eSOLVE_CONTACT pairFlags))))))
     else (eKILL, pairFlags))"

text \<open>The filter masks of a pair match when each side's \<open>word0\<close> meets the other's \<open>word1\<close>.\<close>

definition masks_match :: "PxFilterData \<Rightarrow> PxFilterData \<Rightarrow> bool" where
  "masks_match filterData0 filterData1 =
    (word0 filterData0 AND word1 filterData1 \<noteq> 0 \<and> word0 filterData1 AND word1 filterData0 \<noteq> 0)"


section \<open>Scene state (PhysicsScene.cpp)\<close>

text \<open>
  Backend objects (actors, colliders, joints, materials, generic objects) are known to the
  scene by their address only; a handle stands for a non-null address, so the
  \<open>ASSERT(ptr)\<close> at the head of each queue operation holds by typing.
  Time deltas, speeds and inputs are single-precision floats in the source; the code paths
  embedded here only compare, negate and select among them, so they are modelled as reals.
\<close>

type_synonym handle = nat

type_synonym Vector3 = "real \<times> real \<times> real"

datatype Error = AssertFailed | NullDereference

record PhysicsSettings =
  DefaultGravity :: Vector3
  DisableCCD :: bool
  EnableAdaptiveForce :: bool
  BounceThresholdVelocity :: real
  MaxDeltaTime :: real
  EnableSubstepping :: bool
  SubstepDeltaTime :: real
  MaxSubsteps :: nat

text \<open>
  The live world of the backend, as far as the scene observes it: the actors inserted,
  the scene-wide settings, the actors reported active by the last step, and the frame
  deltas of the steps dispatched so far (oldest first).
\<close>

record PxScene =
  actors :: "handle list"
  gravity :: Vector3
  flag_eENABLE_CCD :: bool
  bounceThresholdVelocity :: real
  activeActors :: "handle list"
  simulated :: "real list"

datatype ActionType = Sleep

record ActionData =
  Type :: ActionType
  Actor :: handle

datatype DriveTypes = Drive4W | DriveNW | NoDrive

datatype RawInputData =
    AnalogInputs real real real real
  | DigitalInputs bool bool bool bool bool

text \<open>
  Every call the scene makes on a collaborator (backend world, backend objects, stepper,
  event collector, vehicle SDK) is recorded in order.
\<close>

datatype Call =
    PxScene_addActors "handle list"
  | PxScene_addActor handle
  | PxScene_removeActors "handle list" bool
  | PxScene_removeActor handle
  | PxRigidDynamic_putToSleep handle
  | PxBase_release handle
  | userData_nullptr handle
  | OnColliderRemoved handle
  | OnJointRemoved handle
  | Events_Clear
  | Events_CollectResults
  | Events_SendTriggerEvents
  | Events_SendCollisionEvents
  | Events_SendJointEvents
  | Stepper_wait
  | Stepper_renderDone
  | SmoothRawInputsAndSetAnalogInputs DriveTypes RawInputData real
  | BatchQuery_release
  | PxScene_createBatchQuery nat
  | TireFrictions_allocate
  | PxVehicleSuspensionRaycasts nat nat
  | PxVehicleUpdates real nat
  | SynchronizeWheels nat nat
  | OnActiveTransformChanged handle

text \<open>The vehicle SDK object behind \<open>_drive\<close>: its identity and its wheel count.\<close>

record PxVehicleWheels =
  drive_id :: handle
  getNbWheels :: nat

text \<open>
  A registered vehicle. \<open>v_drive\<close> is the \<open>_drive\<close> pointer (\<open>None\<close> is null);
  \<open>GetForwardSpeed\<close>, \<open>GetCurrentGear\<close> and \<open>GetTargetGear\<close> are what the
  vehicle's getters report in the frame.
\<close>

record WheeledVehicle =
  IsActiveInHierarchy :: bool
  v_drive :: "PxVehicleWheels option"
  v_driveTypeCurrent :: DriveTypes
  v_throttle :: real
  v_brake :: real
  v_steering :: real
  v_handBrake :: real
  UseReverseAsBrake :: bool
  UseAnalogSteering :: bool
  GetForwardSpeed :: real
  GetCurrentGear :: int
  GetTargetGear :: int

record PxVehicleWheelQueryResult =
  nbWheelQueryResults :: nat
  wheelQueryResults :: nat

record FixedStepper =
  mFixedSubStepSize :: real
  mMaxSubSteps :: nat

text \<open>
  The scene object. The four wheel buffers that the scene only sizes are kept as their
  element counts; the per-vehicle buffer is kept with its entries, where
  \<open>wheelQueryResults\<close> is the offset of the vehicle's first wheel in the per-wheel buffer.
  \<open>userData\<close> is the store of the back-references that the backend objects keep to their
  owning application objects (\<open>None\<close> is a null back-reference); \<open>calls\<close> is the record
  of the calls made so far.
\<close>

record PhysicsScene =
  mScene :: "PxScene option"
  mStepper :: "FixedStepper option"
  mScratchMemory :: bool
  mAutoSimulation :: bool
  mIsDuringSimulation :: bool
  mLastDeltaTime :: real
  mNewActors :: "handle list"
  mActions :: "ActionData list"
  mDeadActors :: "handle list"
  mDeadColliders :: "handle list"
  mDeadJoints :: "handle list"
  mDeadMaterials :: "handle list"
  mDeadObjects :: "handle list"
  mWheelVehicles :: "WheeledVehicle list"
  mWheelVehiclesCache :: "PxVehicleWheels list"
  mWheelQueryResults :: nat
  mWheelHitResults :: nat
  mWheelVehiclesResultsPerVehicle :: "PxVehicleWheelQueryResult list"
  mWheelVehiclesResultsPerWheel :: nat
  mWheelRaycastBatchQuery :: "nat option"
  mWheelTireFrictions :: bool
  userData :: "handle \<rightharpoonup> handle"
  calls :: "Call list"

text \<open>
  What the scene reads from outside itself: the engine settings, the engine's zero
  tolerance, the stepper's minimal simulatable delta, and the vehicle's gear setter
  (defined with the vehicle actor).
\<close>

record Env =
  settings :: PhysicsSettings
  ZeroTolerance :: real
  minimalDelta :: real
  SetCurrentGear :: "int \<Rightarrow> WheeledVehicle \<Rightarrow> WheeledVehicle"

definition call :: "Call \<Rightarrow> PhysicsScene \<Rightarrow> PhysicsScene" where
  "call c s = s\<lparr>calls := calls s @ [c]\<rparr>"

text \<open>\<open>obj->userData = nullptr\<close>: the write to the object's back-reference, recorded.\<close>

definition clearUserData :: "handle \<Rightarrow> PhysicsScene \<Rightarrow> PhysicsScene" where
  "clearUserData obj s = call (userData_nullptr obj) (s\<lparr>userData := (userData s)(obj := None)\<rparr>)"

subsection \<open>Scene-wide settings\<close>

definition GetGravity :: "PhysicsScene \<Rightarrow> Vector3" where
  "GetGravity s = (case mScene s of Some w \<Rightarrow> gravity w | None \<Rightarrow> (0, 0, 0))"

definition GetEnableCCD :: "Env \<Rightarrow> PhysicsScene \<Rightarrow> bool" where
  "GetEnableCCD env s =
    (case mScene s of Some w \<Rightarrow> flag_eENABLE_CCD w | None \<Rightarrow> \<not> DisableCCD (settings env))"

definition GetBounceThresholdVelocity :: "Env \<Rightarrow> PhysicsScene \<Rightarrow> real" where
  "GetBounceThresholdVelocity env s =
    (case mScene s of Some w \<Rightarrow> bounceThresholdVelocity w
     | None \<Rightarrow> BounceThresholdVelocity (settings env))"

definition SetGravity :: "Vector3 \<Rightarrow> PhysicsScene \<Rightarrow> PhysicsScene" where
  "SetGravity val s =
    (case mScene s of Some w \<Rightarrow> s\<lparr>mScene := Some (w\<lparr>gravity := val\<rparr>)\<rparr> | None \<Rightarrow> s)"

definition SetEnableCCD :: "bool \<Rightarrow> PhysicsScene \<Rightarrow> PhysicsScene" where
  "SetEnableCCD val s =
    (case mScene s of Some w \<Rightarrow> s\<lparr>mScene := Some (w\<lparr>flag_eENABLE_CCD := val\<rparr>)\<rparr> | None \<Rightarrow> s)"

definition SetBounceThresholdVelocity :: "real \<Rightarrow> PhysicsScene \<Rightarrow> PhysicsScene" where
  "SetBounceThresholdVelocity val s =
    (case mScene s of Some w \<Rightarrow> s\<lparr>mScene := Some (w\<lparr>bounceThresholdVelocity := val\<rparr>)\<rparr>
     | None \<Rightarrow> s)"

definition SetAutoSimulation :: "bool \<Rightarrow> PhysicsScene \<Rightarrow> PhysicsScene" where
  "SetAutoSimulation val s = s\<lparr>mAutoSimulation := val\<rparr>"

definition IsDuringSimulation :: "PhysicsScene \<Rightarrow> bool" where
  "IsDuringSimulation s = mIsDuringSimulation s"

subsection \<open>Pending-mutation queues\<close>

text \<open>
  Each queue operation runs wholly under \<open>mFlushLocker\<close>, so it is one atomic state
  transformer; \<open>inMainThread\<close> is what \<open>IsInMainThread()\<close> answers for the caller.
  Calling into a null world is a null dereference. The process-wide backend handle
  (\<open>CPhysX\<close>) is taken to exist, so the assertions on it hold.
\<close>

definition AddActor :: "bool \<Rightarrow> handle \<Rightarrow> PhysicsScene \<Rightarrow> Error + PhysicsScene" where
  "AddActor inMainThread actor s =
    (if inMainThread then
       (case mScene s of
          None \<Rightarrow> Inl NullDereference
        | Some w \<Rightarrow>
            Inr (call (PxScene_addActor actor) (s\<lparr>mScene := Some (w\<lparr>actors := actors w @ [actor]\<rparr>)\<rparr>)))
     else Inr (s\<lparr>mNewActors := mNewActors s @ [actor]\<rparr>))"

definition AddDynamicActor ::
  "bool \<Rightarrow> handle \<Rightarrow> bool \<Rightarrow> PhysicsScene \<Rightarrow> Error + PhysicsScene" where
  "AddDynamicActor inMainThread actor putToSleep s =
    (if inMainThread then
       (case mScene s of
          None \<Rightarrow> Inl NullDereference
        | Some w \<Rightarrow>
            (let s1 = call (PxScene_addActor actor)
                        (s\<lparr>mScene := Some (w\<lparr>actors := actors w @ [actor]\<rparr>)\<rparr>)
             in Inr (if putToSleep then call (PxRigidDynamic_putToSleep actor) s1 else s1)))
     else
       (let s1 = s\<lparr>mNewActors := mNewActors s @ [actor]\<rparr>
        in Inr (if putToSleep
                then s1\<lparr>mActions := mActions s1 @ [\<lparr>Type = Sleep, Actor = actor\<rparr>]\<rparr>
                else s1)))"

definition UnlinkActor :: "bool \<Rightarrow> handle \<Rightarrow> PhysicsScene \<Rightarrow> Error + PhysicsScene" where
  "UnlinkActor inMainThread actor s =
    (if \<not> inMainThread then Inl AssertFailed
     else case mScene s of
            None \<Rightarrow> Inl NullDereference
          | Some w \<Rightarrow>
              Inr (call (PxScene_removeActor actor)
                     (s\<lparr>mScene := Some (w\<lparr>actors := removeAll actor (actors w)\<rparr>)\<rparr>)))"

definition RemoveActor :: "handle \<Rightarrow> PhysicsScene \<Rightarrow> PhysicsScene" where
  "RemoveActor actor s =
    (let s1 = clearUserData actor s in s1\<lparr>mDeadActors := mDeadActors s1 @ [actor]\<rparr>)"

definition RemoveCollider :: "handle \<Rightarrow> PhysicsScene \<Rightarrow> PhysicsScene" where
  "RemoveCollider collider s = s\<lparr>mDeadColliders := mDeadColliders s @ [collider]\<rparr>"

definition RemoveJoint :: "handle \<Rightarrow> PhysicsScene \<Rightarrow> PhysicsScene" where
  "RemoveJoint joint s = s\<lparr>mDeadJoints := mDeadJoints s @ [joint]\<rparr>"

definition RemoveMaterial :: "handle \<Rightarrow> PhysicsScene \<Rightarrow> PhysicsScene" where
  "RemoveMaterial material s = s\<lparr>mDeadMaterials := mDeadMaterials s @ [material]\<rparr>"

definition RemoveObject :: "handle \<Rightarrow> PhysicsScene \<Rightarrow> PhysicsScene" where
  "RemoveObject obj s = s\<lparr>mDeadObjects := mDeadObjects s @ [obj]\<rparr>"

subsection \<open>FlushRequests\<close>

text \<open>
  One definition per block of the function, in the source's order; each \<open>for\<close> loop over a
  queue is a \<open>fold\<close> over its items, first to last.
\<close>

definition applyAction :: "ActionData \<Rightarrow> PhysicsScene \<Rightarrow> PhysicsScene" where
  "applyAction action s =
    (case Type action of Sleep \<Rightarrow> call (PxRigidDynamic_putToSleep (Actor action)) s)"

definition flushNewActors :: "PhysicsScene \<Rightarrow> Error + PhysicsScene" where
  "flushNewActors s =
    (if mNewActors s \<noteq> [] then
       (case mScene s of
          None \<Rightarrow> Inl NullDereference
        | Some w \<Rightarrow>
            Inr ((call (PxScene_addActors (mNewActors s))
                    (s\<lparr>mScene := Some (w\<lparr>actors := actors w @ mNewActors s\<rparr>)\<rparr>))
                 \<lparr>mNewActors := []\<rparr>))
     else Inr s)"

definition flushActions :: "PhysicsScene \<Rightarrow> PhysicsScene" where
  "flushActions s = (fold applyAction (mActions s) s)\<lparr>mActions := []\<rparr>"

definition flushDeadActors :: "PhysicsScene \<Rightarrow> Error + PhysicsScene" where
  "flushDeadActors s =
    (if mDeadActors s \<noteq> [] then
       (case mScene s of
          None \<Rightarrow> Inl NullDereference
        | Some w \<Rightarrow>
            (let s1 = call (PxScene_removeActors (mDeadActors s) True)
                        (s\<lparr>mScene :=
                             Some (w\<lparr>actors := filter (\<lambda>a. a \<notin> set (mDeadActors s)) (actors w)\<rparr>)\<rparr>);
                 s2 = fold (\<lambda>a. call (PxBase_release a)) (mDeadActors s1) s1
             in Inr (s2\<lparr>mDeadActors := []\<rparr>)))
     else Inr s)"

definition flushDeadColliders :: "PhysicsScene \<Rightarrow> PhysicsScene" where
  "flushDeadColliders s =
    (if mDeadColliders s \<noteq> [] then
       (fold (\<lambda>c. call (OnColliderRemoved c)) (mDeadColliders s) s)\<lparr>mDeadColliders := []\<rparr>
     else s)"

definition flushDeadJoints :: "PhysicsScene \<Rightarrow> PhysicsScene" where
  "flushDeadJoints s =
    (if mDeadJoints s \<noteq> [] then
       (fold (\<lambda>j. call (OnJointRemoved j)) (mDeadJoints s) s)\<lparr>mDeadJoints := []\<rparr>
     else s)"

definition flushDeadMaterials :: "PhysicsScene \<Rightarrow> PhysicsScene" where
  "flushDeadMaterials s =
    (fold (\<lambda>material s'. call (PxBase_release material) (clearUserData material s'))
       (mDeadMaterials s) s)\<lparr>mDeadMaterials := []\<rparr>"

definition flushDeadObjects :: "PhysicsScene \<Rightarrow> PhysicsScene" where
  "flushDeadObjects s =
    (fold (\<lambda>obj. call (PxBase_release obj)) (mDeadObjects s) s)\<lparr>mDeadObjects := []\<rparr>"

definition FlushRequests :: "PhysicsScene \<Rightarrow> Error + PhysicsScene" where
  "FlushRequests s =
    (if IsDuringSimulation s then Inl AssertFailed
     else case flushNewActors s of
            Inl e \<Rightarrow> Inl e
          | Inr s1 \<Rightarrow>
              (case flushDeadActors (flushActions s1) of
                 Inl e \<Rightarrow> Inl e
               | Inr s2 \<Rightarrow>
                   Inr (flushDeadObjects
                          (flushDeadMaterials (flushDeadJoints (flushDeadColliders s2))))))"

text \<open>
  The flush as the specification words it, in closed form: the calls in the documented
  processing order, the world with the new actors added and the dead ones removed, the
  back-references of the dead materials cleared, and every queue empty. It is compared
  with \<open>FlushRequests\<close> below.
\<close>

definition flushOrder :: "PhysicsScene \<Rightarrow> Call list" where
  "flushOrder s =
    (if mNewActors s = [] then [] else [PxScene_addActors (mNewActors s)])
    @ map (\<lambda>a. PxRigidDynamic_putToSleep (Actor a)) (mActions s)
    @ (if mDeadActors s = [] then []
       else PxScene_removeActors (mDeadActors s) True # map PxBase_release (mDeadActors s))
    @ map OnColliderRemoved (mDeadColliders s)
    @ map OnJointRemoved (mDeadJoints s)
    @ concat (map (\<lambda>m. [userData_nullptr m, PxBase_release m]) (mDeadMaterials s))
    @ map PxBase_release (mDeadObjects s)"

definition flushed :: "PhysicsScene \<Rightarrow> PhysicsScene" where
  "flushed s =
    s\<lparr>mScene := map_option
         (\<lambda>w. w\<lparr>actors := filter (\<lambda>a. a \<notin> set (mDeadActors s)) (actors w @ mNewActors s)\<rparr>)
         (mScene s),
      userData := userData s |` (- set (mDeadMaterials s)),
      calls := calls s @ flushOrder s,
      mNewActors := [], mActions := [], mDeadActors := [], mDeadColliders := [],
      mDeadJoints := [], mDeadMaterials := [], mDeadObjects := []\<rparr>"

subsection \<open>Stepper and Simulate\<close>

text \<open>
  Modelled from the spec: \<open>Math::Clamp\<close> (the engine's math header is not among the
  sources), the clamp of a value into a range.
\<close>

definition Math_Clamp :: "real \<Rightarrow> real \<Rightarrow> real \<Rightarrow> real" where
  "Math_Clamp val lo hi = (if val < lo then lo else if val < hi then val else hi)"

text \<open>
  Modelled from the spec: the stepper (\<open>PhysicsStepper.h\<close> is not among the sources).
  \<open>Setup\<close> stores the step size and the substep limit (one step in single-step mode).
  \<open>advance\<close> returns false without effect if the delta is below the minimal delta, and
  otherwise dispatches the step on the world and returns true.
\<close>

definition Stepper_Setup :: "real \<Rightarrow> nat \<Rightarrow> FixedStepper \<Rightarrow> FixedStepper" where
  "Stepper_Setup stepSize maxSubsteps st =
    st\<lparr>mFixedSubStepSize := stepSize, mMaxSubSteps := maxSubsteps\<rparr>"

definition Stepper_advance ::
  "real \<Rightarrow> FixedStepper \<Rightarrow> PxScene option \<Rightarrow> real \<Rightarrow> Error + (bool \<times> PxScene option)" where
  "Stepper_advance eps st scene dt =
    (if dt < eps then Inr (False, scene)
     else case scene of
            None \<Rightarrow> Inl NullDereference
          | Some w \<Rightarrow> Inr (True, Some (w\<lparr>simulated := simulated w @ [dt]\<rparr>)))"

definition Simulate :: "Env \<Rightarrow> bool \<Rightarrow> real \<Rightarrow> PhysicsScene \<Rightarrow> Error + PhysicsScene" where
  "Simulate env inMainThread dt0 s0 =
    (if \<not> (inMainThread \<and> \<not> mIsDuringSimulation s0) then Inl AssertFailed
     else case FlushRequests s0 of
            Inl e \<Rightarrow> Inl e
          | Inr s1 \<Rightarrow>
              (let dt = Math_Clamp dt0 0 (MaxDeltaTime (settings env));
                   s2 = (if \<not> mScratchMemory s1 then s1\<lparr>mScratchMemory := True\<rparr> else s1);
                   st = (case mStepper s2 of
                           None \<Rightarrow> \<lparr>mFixedSubStepSize = 0, mMaxSubSteps = 1\<rparr>
                         | Some st0 \<Rightarrow> st0);
                   st' = (if EnableSubstepping (settings env)
                          then Stepper_Setup (SubstepDeltaTime (settings env))
                                 (MaxSubsteps (settings env)) st
                          else Stepper_Setup dt 1 st);
                   s3 = s2\<lparr>mStepper := Some st', mIsDuringSimulation := True\<rparr>
               in case Stepper_advance (minimalDelta env) st' (mScene s3) dt of
                    Inl e \<Rightarrow> Inl e
                  | Inr (False, _) \<Rightarrow> Inr s3
                  | Inr (True, scene') \<Rightarrow>
                      Inr (call Stepper_renderDone
                             ((call Events_Clear (s3\<lparr>mScene := scene'\<rparr>))
                                \<lparr>mLastDeltaTime := dt\<rparr>))))"

subsection \<open>CollectResults: vehicle inputs\<close>

text \<open>
  The effective throttle and brake of one active vehicle, with the reverse-as-brake policy.
  The result is the vehicle after a possible gear change, the throttle and the brake, as
  they stand when the raw input data is filled in.
\<close>

definition VehicleInput :: "Env \<Rightarrow> WheeledVehicle \<Rightarrow> WheeledVehicle \<times> real \<times> real" where
  "VehicleInput env wheelVehicle =
    (let throttle = v_throttle wheelVehicle; brake = v_brake wheelVehicle in
     if UseReverseAsBrake wheelVehicle then
       (let invalidDirectionThreshold = 80;
            breakThreshold = 8;
            forwardSpeed = GetForwardSpeed wheelVehicle;
            wheelVehicle1 =
              (if \<bar>forwardSpeed\<bar> < invalidDirectionThreshold then
                 (if throttle < - ZeroTolerance env \<and> GetCurrentGear wheelVehicle \<ge> 0
                     \<and> GetTargetGear wheelVehicle \<ge> 0
                  then SetCurrentGear env (- 1) wheelVehicle
                  else if throttle > ZeroTolerance env \<and> GetCurrentGear wheelVehicle \<le> 0
                          \<and> GetTargetGear wheelVehicle \<le> 0
                  then SetCurrentGear env 1 wheelVehicle
                  else wheelVehicle)
               else wheelVehicle);
            brake1 =
              (if throttle > 0 then
                 (if forwardSpeed < - invalidDirectionThreshold then 1 else brake)
               else if throttle < 0 then
                 (if forwardSpeed > invalidDirectionThreshold then 1 else brake)
               else
                 (if forwardSpeed < breakThreshold \<and> forwardSpeed > - breakThreshold then 1
                  else brake));
            throttle1 =
              (if (throttle > 0 \<and> GetTargetGear wheelVehicle1 < 0)
                  \<or> (throttle < 0 \<and> GetTargetGear wheelVehicle1 > 0)
               then 0 else throttle)
        in (wheelVehicle1, \<bar>throttle1\<bar>, brake1))
     else (wheelVehicle, max throttle 0, brake))"

text \<open>
  The raw input handed to the input smoother: analog values as they are, or digital
  switches against the dead zone, the single-precision constant \<open>0.1f\<close>, whose exact
  value is 13421773 / 134217728. A vehicle of neither drive type gets no smoother call.
\<close>

definition smoothInputs ::
  "WheeledVehicle \<Rightarrow> real \<Rightarrow> real \<Rightarrow> PhysicsScene \<Rightarrow> PhysicsScene" where
  "smoothInputs wheelVehicle throttle brake s =
    (if UseAnalogSteering wheelVehicle then
       (let rawInputData =
              AnalogInputs throttle brake (v_steering wheelVehicle) (v_handBrake wheelVehicle)
        in case v_driveTypeCurrent wheelVehicle of
             Drive4W \<Rightarrow>
               call (SmoothRawInputsAndSetAnalogInputs Drive4W rawInputData (mLastDeltaTime s)) s
           | DriveNW \<Rightarrow>
               call (SmoothRawInputsAndSetAnalogInputs DriveNW rawInputData (mLastDeltaTime s)) s
           | NoDrive \<Rightarrow> s)
     else
       (let deadZone = 13421773 / 134217728;
            rawInputData =
              DigitalInputs (throttle > deadZone) (brake > deadZone)
                (v_steering wheelVehicle < - deadZone) (v_steering wheelVehicle > deadZone)
                (v_handBrake wheelVehicle > deadZone)
        in case v_driveTypeCurrent wheelVehicle of
             Drive4W \<Rightarrow>
               call (SmoothRawInputsAndSetAnalogInputs Drive4W rawInputData (mLastDeltaTime s)) s
           | DriveNW \<Rightarrow>
               call (SmoothRawInputsAndSetAnalogInputs DriveNW rawInputData (mLastDeltaTime s)) s
           | NoDrive \<Rightarrow> s))"

text \<open>
  The first loop over the registered vehicles: an inactive vehicle is skipped; an active one
  must have a drive, which is appended to the cache, its wheels are counted, and its inputs
  are computed and smoothed. The vehicles are returned as the loop leaves them.
\<close>

fun updateSteering ::
  "Env \<Rightarrow> WheeledVehicle list \<Rightarrow> nat \<Rightarrow> PhysicsScene
     \<Rightarrow> Error + (WheeledVehicle list \<times> nat \<times> PhysicsScene)" where
  "updateSteering env [] wheelsCount s = Inr ([], wheelsCount, s)"
| "updateSteering env (wheelVehicle # rest) wheelsCount s =
    (if \<not> IsActiveInHierarchy wheelVehicle then
       (case updateSteering env rest wheelsCount s of
          Inl e \<Rightarrow> Inl e
        | Inr (rest', r) \<Rightarrow> Inr (wheelVehicle # rest', r))
     else case v_drive wheelVehicle of
            None \<Rightarrow> Inl AssertFailed
          | Some drive \<Rightarrow>
              (case VehicleInput env wheelVehicle of
                 (wheelVehicle', throttle, brake) \<Rightarrow>
                   (case updateSteering env rest (wheelsCount + getNbWheels drive)
                           (smoothInputs wheelVehicle' throttle brake
                              (s\<lparr>mWheelVehiclesCache := mWheelVehiclesCache s @ [drive]\<rparr>)) of
                      Inl e \<Rightarrow> Inl e
                    | Inr (rest', r) \<Rightarrow> Inr (wheelVehicle' # rest', r))))"

subsection \<open>CollectResults: wheel buffers\<close>

definition updateBatchQueries :: "nat \<Rightarrow> PhysicsScene \<Rightarrow> Error + PhysicsScene" where
  "updateBatchQueries wheelsCount s =
    (if wheelsCount > mWheelQueryResults s then
       (let s1 = (if mWheelRaycastBatchQuery s \<noteq> None then call BatchQuery_release s else s);
            s2 = s1\<lparr>mWheelQueryResults := wheelsCount, mWheelHitResults := wheelsCount\<rparr>
        in case mScene s2 of
             None \<Rightarrow> Inl NullDereference
           | Some w \<Rightarrow>
               Inr ((call (PxScene_createBatchQuery wheelsCount) s2)
                      \<lparr>mWheelRaycastBatchQuery := Some wheelsCount\<rparr>))
     else Inr s)"

definition setupTireFrictions :: "PhysicsScene \<Rightarrow> PhysicsScene" where
  "setupTireFrictions s =
    (if \<not> mWheelTireFrictions s
     then (call TireFrictions_allocate s)\<lparr>mWheelTireFrictions := True\<rparr>
     else s)"

text \<open>\<open>Resize\<close> of an array to \<open>n\<close> elements, new elements default-constructed.\<close>

definition Resize :: "nat \<Rightarrow> 'a \<Rightarrow> 'a list \<Rightarrow> 'a list" where
  "Resize n d xs = take n xs @ replicate (n - length xs) d"

text \<open>
  The second loop, \<open>for (i = 0, ii = 0; i < mWheelVehicles.Count(); i++)\<close>: the second
  argument is the part of the vehicle list from index \<open>i\<close> on, the first the whole list,
  which the loop body indexes with \<open>ii\<close>. Array indexing asserts the index in range.
\<close>

fun setupWheelStates ::
  "WheeledVehicle list \<Rightarrow> WheeledVehicle list \<Rightarrow> nat \<Rightarrow> nat
     \<Rightarrow> PxVehicleWheelQueryResult list \<Rightarrow> Error + PxVehicleWheelQueryResult list" where
  "setupWheelStates vehicles [] ii wheelsCount perVehicle = Inr perVehicle"
| "setupWheelStates vehicles (wheelVehicle # rest) ii wheelsCount perVehicle =
    (if \<not> IsActiveInHierarchy wheelVehicle then
       setupWheelStates vehicles rest ii wheelsCount perVehicle
     else if \<not> ii < length vehicles then Inl AssertFailed
     else case v_drive (vehicles ! ii) of
            None \<Rightarrow> Inl NullDereference
          | Some drive \<Rightarrow>
              (if \<not> ii < length perVehicle then Inl AssertFailed
               else setupWheelStates vehicles rest (ii + 1) (wheelsCount + getNbWheels drive)
                      (perVehicle[ii := \<lparr>nbWheelQueryResults = getNbWheels drive,
                                          wheelQueryResults = wheelsCount\<rparr>])))"

text \<open>
  The third loop pairs each active vehicle \<open>i\<close> with cache entry \<open>ii\<close> and writes the wheel
  states the vehicle update produced; the written values come from the backend, so the
  loop is kept as one recorded synchronisation per active vehicle.
\<close>

fun synchronizeState :: "WheeledVehicle list \<Rightarrow> nat \<Rightarrow> nat \<Rightarrow> PhysicsScene \<Rightarrow> Error + PhysicsScene" where
  "synchronizeState [] i ii s = Inr s"
| "synchronizeState (wheelVehicle # rest) i ii s =
    (if \<not> IsActiveInHierarchy wheelVehicle then synchronizeState rest (i + 1) ii s
     else if \<not> (ii < length (mWheelVehiclesCache s)
                 \<and> ii < length (mWheelVehiclesResultsPerVehicle s)) then Inl AssertFailed
     else synchronizeState rest (i + 1) (ii + 1) (call (SynchronizeWheels i ii) s))"

text \<open>
  Sizing the per-vehicle and per-wheel result buffers to the frame and filling the
  per-vehicle records (second loop), then the two batched vehicle calls, made only when a
  drive was cached; the second reads the gravity of the world.
\<close>

definition setupWheelCache :: "nat \<Rightarrow> PhysicsScene \<Rightarrow> Error + PhysicsScene" where
  "setupWheelCache wheelsCount s =
    (let s1 = s\<lparr>mWheelVehiclesResultsPerVehicle :=
                  Resize (length (mWheelVehiclesCache s))
                    \<lparr>nbWheelQueryResults = 0, wheelQueryResults = 0\<rparr>
                    (mWheelVehiclesResultsPerVehicle s),
                mWheelVehiclesResultsPerWheel := wheelsCount\<rparr>
     in case setupWheelStates (mWheelVehicles s1) (mWheelVehicles s1) 0 0
               (mWheelVehiclesResultsPerVehicle s1) of
          Inl e \<Rightarrow> Inl e
        | Inr perVehicle \<Rightarrow> Inr (s1\<lparr>mWheelVehiclesResultsPerVehicle := perVehicle\<rparr>))"

definition runVehicleUpdates :: "PhysicsScene \<Rightarrow> Error + PhysicsScene" where
  "runVehicleUpdates s =
    (if length (mWheelVehiclesCache s) \<noteq> 0 then
       (let s1 = call (PxVehicleSuspensionRaycasts (length (mWheelVehiclesCache s))
                         (mWheelQueryResults s)) s
        in case mScene s1 of
             None \<Rightarrow> Inl NullDereference
           | Some w \<Rightarrow>
               Inr (call (PxVehicleUpdates (mLastDeltaTime s1) (length (mWheelVehiclesCache s1)))
                      s1))
     else Inr s)"

definition updateVehicles :: "Env \<Rightarrow> PhysicsScene \<Rightarrow> Error + PhysicsScene" where
  "updateVehicles env s =
    (if mWheelVehicles s = [] then Inr s
     else case updateSteering env (mWheelVehicles s) 0 (s\<lparr>mWheelVehiclesCache := []\<rparr>) of
            Inl e \<Rightarrow> Inl e
          | Inr (vehicles', wheelsCount, s1) \<Rightarrow>
              (case updateBatchQueries wheelsCount (s1\<lparr>mWheelVehicles := vehicles'\<rparr>) of
                 Inl e \<Rightarrow> Inl e
               | Inr s2 \<Rightarrow>
                   (case setupWheelCache wheelsCount (setupTireFrictions s2) of
                      Inl e \<Rightarrow> Inl e
                    | Inr s3 \<Rightarrow>
                        (case runVehicleUpdates s3 of
                           Inl e \<Rightarrow> Inl e
                         | Inr s4 \<Rightarrow> synchronizeState (mWheelVehicles s4) 0 0 s4))))"

text \<open>The wheels of the active vehicles of a list, summed.\<close>

definition activeWheels :: "WheeledVehicle list \<Rightarrow> nat" where
  "activeWheels vehicles =
    sum_list (map (\<lambda>v. case v_drive v of None \<Rightarrow> 0 | Some drive \<Rightarrow> getNbWheels drive)
                (filter IsActiveInHierarchy vehicles))"

text \<open>
  A step of the vehicle pipeline that only adds calls: the world, the stepper, the mid-step
  flag, the back-references, the dead-material queue and the sizes of the two shared
  wheel-query buffers stay, and the recorded calls are extended.
\<close>

definition Extends :: "PhysicsScene \<Rightarrow> PhysicsScene \<Rightarrow> bool" where
  "Extends s s' =
    (mScene s' = mScene s \<and> mStepper s' = mStepper s
     \<and> mIsDuringSimulation s' = mIsDuringSimulation s
     \<and> userData s' = userData s \<and> mDeadMaterials s' = mDeadMaterials s
     \<and> mWheelQueryResults s' = mWheelQueryResults s \<and> mWheelHitResults s' = mWheelHitResults s
     \<and> prefix (calls s) (calls s'))"

text \<open>
  What the pipeline relies on from outside: the gear setter changes gears only (it leaves
  the vehicle's place in the hierarchy and its drive alone), and every registered vehicle
  has a drive.
\<close>

definition gearSetterKeeps :: "Env \<Rightarrow> bool" where
  "gearSetterKeeps env =
    (\<forall>g v. IsActiveInHierarchy (SetCurrentGear env g v) = IsActiveInHierarchy v
          \<and> v_drive (SetCurrentGear env g v) = v_drive v)"

definition haveDrives :: "WheeledVehicle list \<Rightarrow> bool" where
  "haveDrives vehicles = list_all (\<lambda>v. v_drive v \<noteq> None) vehicles"

text \<open>
  Every actor the world reports active still has its owner; and, for a run of frames, none
  of them is queued as a dead material, whose back-reference the next flush clears.
\<close>

definition ownersPresent :: "PhysicsScene \<Rightarrow> bool" where
  "ownersPresent s =
    (case mScene s of
       None \<Rightarrow> True
     | Some w \<Rightarrow> list_all (\<lambda>a. userData s a \<noteq> None) (activeActors w))"

definition ownersKept :: "PhysicsScene \<Rightarrow> bool" where
  "ownersKept s =
    (case mScene s of
       None \<Rightarrow> True
     | Some w \<Rightarrow>
         list_all (\<lambda>a. userData s a \<noteq> None \<and> a \<notin> set (mDeadMaterials s)) (activeActors w))"

subsection \<open>CollectResults\<close>

text \<open>
  The loop over the actors the world reports active: the owner is read from the actor's
  back-reference and asserted to exist, then given the new transform.
\<close>

fun notifyActiveActors :: "handle list \<Rightarrow> PhysicsScene \<Rightarrow> Error + PhysicsScene" where
  "notifyActiveActors [] s = Inr s"
| "notifyActiveActors (pxActor # rest) s =
    (case userData s pxActor of
       None \<Rightarrow> Inl AssertFailed
     | Some actor \<Rightarrow> notifyActiveActors rest (call (OnActiveTransformChanged actor) s))"

definition flushActiveTransforms :: "PhysicsScene \<Rightarrow> Error + PhysicsScene" where
  "flushActiveTransforms s =
    (case mScene s of
       None \<Rightarrow> Inl NullDereference
     | Some w \<Rightarrow> notifyActiveActors (activeActors w) s)"

definition sendEvents :: "PhysicsScene \<Rightarrow> PhysicsScene" where
  "sendEvents s =
    call Events_SendJointEvents
      (call Events_SendCollisionEvents
        (call Events_SendTriggerEvents (call Events_CollectResults s)))"

definition CollectResults :: "Env \<Rightarrow> bool \<Rightarrow> PhysicsScene \<Rightarrow> Error + PhysicsScene" where
  "CollectResults env inMainThread s =
    (if \<not> mIsDuringSimulation s then Inr s
     else if \<not> inMainThread then Inl AssertFailed
     else if mStepper s = None then Inl AssertFailed
     else case updateVehicles env (call Stepper_wait s) of
            Inl e \<Rightarrow> Inl e
          | Inr s1 \<Rightarrow>
              (case flushActiveTransforms s1 of
                 Inl e \<Rightarrow> Inl e
               | Inr s2 \<Rightarrow> Inr ((sendEvents s2)\<lparr>mIsDuringSimulation := False\<rparr>)))"

subsection \<open>The calls of a collection, in closed form\<close>

text \<open>
  The pipeline that a mid-step \<open>CollectResults\<close> is to run, written out as the list of
  calls it makes, stage by stage; it is compared with \<open>CollectResults\<close> below.
  For the vehicle stage: one smoother call per active vehicle that has a drive type, the
  batch query rebuilt when the wheel count exceeds the shared buffers, the tire frictions
  allocated on first use, the batched raycast and update when a drive was cached, and one
  wheel synchronisation per active vehicle.
\<close>

definition smoothCalls :: "WheeledVehicle \<Rightarrow> real \<Rightarrow> real \<Rightarrow> real \<Rightarrow> Call list" where
  "smoothCalls v throttle brake dt =
    (let rawInputData =
           (if UseAnalogSteering v
            then AnalogInputs throttle brake (v_steering v) (v_handBrake v)
            else DigitalInputs (throttle > 13421773 / 134217728) (brake > 13421773 / 134217728)
                   (v_steering v < - (13421773 / 134217728))
                   (v_steering v > 13421773 / 134217728)
                   (v_handBrake v > 13421773 / 134217728))
     in if v_driveTypeCurrent v = NoDrive then []
        else [SmoothRawInputsAndSetAnalogInputs (v_driveTypeCurrent v) rawInputData dt])"

fun inputCalls :: "Env \<Rightarrow> real \<Rightarrow> WheeledVehicle list \<Rightarrow> Call list" where
  "inputCalls env dt [] = []"
| "inputCalls env dt (v # vs) =
    (if IsActiveInHierarchy v
     then smoothCalls (fst (VehicleInput env v)) (fst (snd (VehicleInput env v)))
            (snd (snd (VehicleInput env v))) dt
     else [])
    @ inputCalls env dt vs"

fun activeDrives :: "WheeledVehicle list \<Rightarrow> PxVehicleWheels list" where
  "activeDrives [] = []"
| "activeDrives (v # vs) =
    (if IsActiveInHierarchy v then (case v_drive v of None \<Rightarrow> [] | Some drive \<Rightarrow> [drive]) else [])
    @ activeDrives vs"

definition steered :: "Env \<Rightarrow> WheeledVehicle list \<Rightarrow> WheeledVehicle list" where
  "steered env vs = map (\<lambda>v. if IsActiveInHierarchy v then fst (VehicleInput env v) else v) vs"

fun syncCalls :: "WheeledVehicle list \<Rightarrow> nat \<Rightarrow> nat \<Rightarrow> Call list" where
  "syncCalls [] i ii = []"
| "syncCalls (v # vs) i ii =
    (if IsActiveInHierarchy v then SynchronizeWheels i ii # syncCalls vs (i + 1) (ii + 1)
     else syncCalls vs (i + 1) ii)"

definition vehicleCalls :: "Env \<Rightarrow> PhysicsScene \<Rightarrow> Call list" where
  "vehicleCalls env s =
    (if mWheelVehicles s = [] then []
     else
       inputCalls env (mLastDeltaTime s) (mWheelVehicles s)
       @ (if activeWheels (mWheelVehicles s) > mWheelQueryResults s
          then (if mWheelRaycastBatchQuery s \<noteq> None then [BatchQuery_release] else [])
               @ [PxScene_createBatchQuery (activeWheels (mWheelVehicles s))]
          else [])
       @ (if \<not> mWheelTireFrictions s then [TireFrictions_allocate] else [])
       @ (if activeDrives (mWheelVehicles s) \<noteq> []
          then [PxVehicleSuspensionRaycasts (length (activeDrives (mWheelVehicles s)))
                  (max (mWheelQueryResults s) (activeWheels (mWheelVehicles s))),
                PxVehicleUpdates (mLastDeltaTime s) (length (activeDrives (mWheelVehicles s)))]
          else [])
       @ syncCalls (steered env (mWheelVehicles s)) 0 0)"

definition pipelineCalls :: "Env \<Rightarrow> PhysicsScene \<Rightarrow> Call list" where
  "pipelineCalls env s =
    [Stepper_wait]
    @ vehicleCalls env s
    @ map OnActiveTransformChanged
        (List.map_filter (userData s) (case mScene s of None \<Rightarrow> [] | Some w \<Rightarrow> activeActors w))
    @ [Events_CollectResults, Events_SendTriggerEvents, Events_SendCollisionEvents,
       Events_SendJointEvents]"

subsection \<open>The scene's operations as one transition function\<close>

datatype Operation =
    Op_Simulate real
  | Op_CollectResults
  | Op_FlushRequests
  | Op_AddActor handle
  | Op_AddDynamicActor handle bool
  | Op_UnlinkActor handle
  | Op_RemoveActor handle
  | Op_RemoveCollider handle
  | Op_RemoveJoint handle
  | Op_RemoveMaterial handle
  | Op_RemoveObject handle
  | Op_SetGravity Vector3
  | Op_SetEnableCCD bool
  | Op_SetBounceThresholdVelocity real
  | Op_SetAutoSimulation bool

fun perform :: "Env \<Rightarrow> bool \<Rightarrow> Operation \<Rightarrow> PhysicsScene \<Rightarrow> Error + PhysicsScene" where
  "perform env inMainThread (Op_Simulate dt) s = Simulate env inMainThread dt s"
| "perform env inMainThread Op_CollectResults s = CollectResults env inMainThread s"
| "perform env inMainThread Op_FlushRequests s = FlushRequests s"
| "perform env inMainThread (Op_AddActor a) s = AddActor inMainThread a s"
| "perform env inMainThread (Op_AddDynamicActor a putToSleep) s =
     AddDynamicActor inMainThread a putToSleep s"
| "perform env inMainThread (Op_UnlinkActor a) s = UnlinkActor inMainThread a s"
| "perform env inMainThread (Op_RemoveActor a) s = Inr (RemoveActor a s)"
| "perform env inMainThread (Op_RemoveCollider c) s = Inr (RemoveCollider c s)"
| "perform env inMainThread (Op_RemoveJoint j) s = Inr (RemoveJoint j s)"
| "perform env inMainThread (Op_RemoveMaterial m) s = Inr (RemoveMaterial m s)"
| "perform env inMainThread (Op_RemoveObject obj) s = Inr (RemoveObject obj s)"
| "perform env inMainThread (Op_SetGravity g) s = Inr (SetGravity g s)"
| "perform env inMainThread (Op_SetEnableCCD b) s = Inr (SetEnableCCD b s)"
| "perform env inMainThread (Op_SetBounceThresholdVelocity v) s =
     Inr (SetBounceThresholdVelocity v s)"
| "perform env inMainThread (Op_SetAutoSimulation b) s = Inr (SetAutoSimulation b s)"

text \<open>
  The main loop, frame by frame: each frame has its registered vehicles and its delta; the
  main thread calls \<open>Simulate\<close> and then \<open>CollectResults\<close>.
\<close>

fun runFrames ::
  "Env \<Rightarrow> (WheeledVehicle list \<times> real) list \<Rightarrow> PhysicsScene \<Rightarrow> Error + PhysicsScene" where
  "runFrames env [] s = Inr s"
| "runFrames env ((vehicles, dt) # frames) s =
    (case Simulate env True dt (s\<lparr>mWheelVehicles := vehicles\<rparr>) of
       Inl e \<Rightarrow> Inl e
     | Inr s1 \<Rightarrow>
         (case CollectResults env True s1 of
            Inl e \<Rightarrow> Inl e
          | Inr s2 \<Rightarrow> runFrames env frames s2))"

subsection \<open>Concrete scenes for evaluation\<close>

definition env0 :: Env where
  "env0 = \<lparr>settings = \<lparr>DefaultGravity = (0, - 981, 0), DisableCCD = False,
                         EnableAdaptiveForce = False, BounceThresholdVelocity = 200,
                         MaxDeltaTime = 1 / 10, EnableSubstepping = False,
                         SubstepDeltaTime = 1 / 120, MaxSubsteps = 5\<rparr>,
           ZeroTolerance = 1 / 1000000,
           minimalDelta = 1 / 1000,
           SetCurrentGear = (\<lambda>g v. v\<lparr>GetCurrentGear := g, GetTargetGear := g\<rparr>)\<rparr>"

definition world0 :: PxScene where
  "world0 = \<lparr>actors = [8], gravity = (0, - 981, 0), flag_eENABLE_CCD = True,
             bounceThresholdVelocity = 200, activeActors = [8], simulated = []\<rparr>"

definition scene0 :: PhysicsScene where
  "scene0 = \<lparr>mScene = Some world0, mStepper = None, mScratchMemory = False,
             mAutoSimulation = True, mIsDuringSimulation = False, mLastDeltaTime = 0,
             mNewActors = [], mActions = [], mDeadActors = [], mDeadColliders = [],
             mDeadJoints = [], mDeadMaterials = [], mDeadObjects = [],
             mWheelVehicles = [], mWheelVehiclesCache = [], mWheelQueryResults = 0,
             mWheelHitResults = 0, mWheelVehiclesResultsPerVehicle = [],
             mWheelVehiclesResultsPerWheel = 0, mWheelRaycastBatchQuery = None,
             mWheelTireFrictions = False, userData = (\<lambda>obj. Some obj), calls = []\<rparr>"

definition car :: "bool \<Rightarrow> nat \<Rightarrow> WheeledVehicle" where
  "car active wheels =
    \<lparr>IsActiveInHierarchy = active,
     v_drive = Some \<lparr>drive_id = wheels, getNbWheels = wheels\<rparr>,
     v_driveTypeCurrent = Drive4W, v_throttle = 0, v_brake = 0, v_steering = 0,
     v_handBrake = 0, UseReverseAsBrake = False, UseAnalogSteering = True,
     GetForwardSpeed = 0, GetCurrentGear = 1, GetTargetGear = 1\<rparr>"

definition scene_pending :: PhysicsScene where
  "scene_pending =
     scene0\<lparr>mScene := Some (world0\<lparr>actors := [3, 8]\<rparr>),
            mNewActors := [1, 2], mActions := [\<lparr>Type = Sleep, Actor = 2\<rparr>],
            mDeadActors := [3], mDeadColliders := [4], mDeadJoints := [5],
            mDeadMaterials := [6], mDeadObjects := [7]\<rparr>"

definition scene_no_world :: PhysicsScene where
  "scene_no_world = scene0\<lparr>mScene := None\<rparr>"

definition scene_stepping :: PhysicsScene where
  "scene_stepping =
     scene0\<lparr>mStepper := Some \<lparr>mFixedSubStepSize = 1 / 60, mMaxSubSteps = 1\<rparr>,
            mScratchMemory := True, mIsDuringSimulation := True, mLastDeltaTime := 1 / 60\<rparr>"

definition car_reversing :: WheeledVehicle where
  "car_reversing =
     (car True 4)\<lparr>UseReverseAsBrake := True, GetForwardSpeed := - 90, v_throttle := 1 / 2,
                  GetCurrentGear := - 1, GetTargetGear := - 1\<rparr>"

definition car_rolling_back :: WheeledVehicle where
  "car_rolling_back =
     (car True 4)\<lparr>UseReverseAsBrake := True, GetForwardSpeed := - 90, v_throttle := 1 / 2\<rparr>"

definition scene_skipped :: PhysicsScene where
  "scene_skipped =
     scene0\<lparr>mStepper := Some \<lparr>mFixedSubStepSize = 0, mMaxSubSteps = 1\<rparr>,
            mScratchMemory := True, mIsDuringSimulation := True\<rparr>"

definition scene_cars :: PhysicsScene where
  "scene_cars = scene0\<lparr>mWheelVehicles := [car False 2, car True 4]\<rparr>"

definition scene_cars_skipped :: PhysicsScene where
  "scene_cars_skipped = scene_skipped\<lparr>mWheelVehicles := [car False 2, car True 4]\<rparr>"

definition three_frames :: "(WheeledVehicle list \<times> real) list" where
  "three_frames =
     [([car True 4, car True 6], 1 / 60), ([car True 4], 0), ([car False 4], 1 / 60)]"

section \<open>Theorems\<close>

text \<open>
  C2. The pair filter decides in this order. A pair with a trigger on either side gets the
  touch found and touch lost notifications and the default filter flag, and the shader adds
  no solve flag. Otherwise a pair of two kinematic bodies is suppressed and gets the touch
  found, persists and lost notifications, again with no solve flag added. Otherwise a pair
  whose masks match on both sides gets the default filter flag with the solve flag and the
  touch found and persists notifications. Every other pair is killed and its flag set is
  left as it was handed in. Started from the empty flag set, the first two cases and the
  last carry no solve flag and the last carries no flag at all.
\<close>

theorem FilterShader_decision:
  "(PxFilterObjectIsTrigger aA \<or> PxFilterObjectIsTrigger aB \<longrightarrow>
      FilterShader aA dA aB dB pf =
        (eDEFAULT, pf \<union> {eNOTIFY_TOUCH_FOUND, eNOTIFY_TOUCH_LOST, eDETECT_DISCRETE_CONTACT})
      \<and> eSOLVE_CONTACT \<notin> snd (FilterShader aA dA aB dB {}))
   \<and> (\<not> (PxFilterObjectIsTrigger aA \<or> PxFilterObjectIsTrigger aB)
        \<and> PxFilterObjectIsKinematic aA \<and> PxFilterObjectIsKinematic aB \<longrightarrow>
      FilterShader aA dA aB dB pf =
        (eSUPPRESS, pf \<union> {eNOTIFY_TOUCH_FOUND, eNOTIFY_TOUCH_PERSISTS, eNOTIFY_TOUCH_LOST,
                            eDETECT_DISCRETE_CONTACT})
      \<and> eSOLVE_CONTACT \<notin> snd (FilterShader aA dA aB dB {}))
   \<and> (\<not> (PxFilterObjectIsTrigger aA \<or> PxFilterObjectIsTrigger aB)
        \<and> \<not> (PxFilterObjectIsKinematic aA \<and> PxFilterObjectIsKinematic aB)
        \<and> masks_match dA dB \<longrightarrow>
      FilterShader aA dA aB dB pf =
        (eDEFAULT, pf \<union> {eSOLVE_CONTACT, eDETECT_DISCRETE_CONTACT, eNOTIFY_TOUCH_FOUND,
                           eNOTIFY_TOUCH_PERSISTS, ePOST_SOLVER_VELOCITY, eNOTIFY_CONTACT_POINTS}))
   \<and> (\<not> (PxFilterObjectIsTrigger aA \<or> PxFilterObjectIsTrigger aB)
        \<and> \<not> (PxFilterObjectIsKinematic aA \<and> PxFilterObjectIsKinematic aB)
        \<and> \<not> masks_match dA dB \<longrightarrow>
      FilterShader aA dA aB dB pf = (eKILL, pf)
      \<and> FilterShader aA dA aB dB {} = (eKILL, {}))"
  by (auto simp add: FilterShader_def masks_match_def)

theorem FilterShader_decision_witness:
  "FilterShader 32 \<lparr>word0 = 1, word1 = 1, word2 = 0, word3 = 0\<rparr>
                16 \<lparr>word0 = 1, word1 = 1, word2 = 0, word3 = 0\<rparr> {}
     = (eDEFAULT, {eNOTIFY_TOUCH_FOUND, eNOTIFY_TOUCH_LOST, eDETECT_DISCRETE_CONTACT})
   \<and> FilterShader 16 \<lparr>word0 = 1, word1 = 1, word2 = 0, word3 = 0\<rparr>
                  16 \<lparr>word0 = 1, word1 = 1, word2 = 0, word3 = 0\<rparr> {}
     = (eSUPPRESS, {eNOTIFY_TOUCH_FOUND, eNOTIFY_TOUCH_PERSISTS, eNOTIFY_TOUCH_LOST,
                    eDETECT_DISCRETE_CONTACT})
   \<and> FilterShader 16 \<lparr>word0 = 1, word1 = 2, word2 = 0, word3 = 0\<rparr>
                  0 \<lparr>word0 = 2, word1 = 1, word2 = 0, word3 = 0\<rparr> {}
     = (eDEFAULT, {eSOLVE_CONTACT, eDETECT_DISCRETE_CONTACT, eNOTIFY_TOUCH_FOUND,
                   eNOTIFY_TOUCH_PERSISTS, ePOST_SOLVER_VELOCITY, eNOTIFY_CONTACT_POINTS})
   \<and> FilterShader 16 \<lparr>word0 = 1, word1 = 2, word2 = 0, word3 = 0\<rparr>
                  0 \<lparr>word0 = 2, word1 = 2, word2 = 0, word3 = 0\<rparr> {}
     = (eKILL, {})"
  using
    FilterShader_decision [of 32 16 "\<lparr>word0 = 1, word1 = 1, word2 = 0, word3 = 0\<rparr>"
                              "\<lparr>word0 = 1, word1 = 1, word2 = 0, word3 = 0\<rparr>" "{}"]
    FilterShader_decision [of 16 16 "\<lparr>word0 = 1, word1 = 1, word2 = 0, word3 = 0\<rparr>"
                              "\<lparr>word0 = 1, word1 = 1, word2 = 0, word3 = 0\<rparr>" "{}"]
    FilterShader_decision [of 16 0 "\<lparr>word0 = 1, word1 = 2, word2 = 0, word3 = 0\<rparr>"
                              "\<lparr>word0 = 2, word1 = 1, word2 = 0, word3 = 0\<rparr>" "{}"]
    FilterShader_decision [of 16 0 "\<lparr>word0 = 1, word1 = 2, word2 = 0, word3 = 0\<rparr>"
                              "\<lparr>word0 = 2, word1 = 2, word2 = 0, word3 = 0\<rparr>" "{}"]
  by (simp add: PxFilterObjectIsTrigger_def PxFilterObjectIsKinematic_def masks_match_def)


subsection \<open>Flushing the pending-mutation queues\<close>

lemma fold_call:
  "fold (\<lambda>x. call (g x)) xs s = s\<lparr>calls := calls s @ map g xs\<rparr>"
  by (induction xs arbitrary: s) (simp_all add: call_def)

lemma fold_applyAction:
  "fold applyAction as s = s\<lparr>calls := calls s @ map (\<lambda>a. PxRigidDynamic_putToSleep (Actor a)) as\<rparr>"
  by (induction as arbitrary: s) (simp_all add: call_def applyAction_def split: ActionType.split)

lemma restrict_map_clear:
  "(u(obj := None)) |` (- set objs) = u |` (- set (obj # objs))"
  by (rule ext) (simp add: restrict_map_def)

lemma fold_release_material:
  "fold (\<lambda>material s'. call (PxBase_release material) (clearUserData material s')) ms s
     = s\<lparr>userData := userData s |` (- set ms),
         calls := calls s @ concat (map (\<lambda>m. [userData_nullptr m, PxBase_release m]) ms)\<rparr>"
proof (induction ms arbitrary: s)
  case Nil
  show ?case by (simp add: restrict_map_def)
next
  case (Cons m ms)
  define s1 where "s1 = s\<lparr>userData := (userData s)(m := None),
                          calls := calls s @ [userData_nullptr m, PxBase_release m]\<rparr>"
  have "call (PxBase_release m) (clearUserData m s) = s1"
    by (simp add: s1_def call_def clearUserData_def)
  then have "fold (\<lambda>material s'. call (PxBase_release material) (clearUserData material s'))
               (m # ms) s
             = s1\<lparr>userData := userData s1 |` (- set ms),
                  calls := calls s1 @ concat (map (\<lambda>m. [userData_nullptr m, PxBase_release m]) ms)\<rparr>"
    by (simp add: Cons.IH)
  also have "userData s1 |` (- set ms) = userData s |` (- set (m # ms))"
  proof -
    have "userData s1 = (userData s)(m := None)" by (simp add: s1_def)
    then show ?thesis by (simp only: restrict_map_clear)
  qed
  finally show ?case
    by (simp add: s1_def)
qed

lemma flushActions_eq:
  "flushActions s =
     s\<lparr>calls := calls s @ map (\<lambda>a. PxRigidDynamic_putToSleep (Actor a)) (mActions s),
       mActions := []\<rparr>"
  by (simp add: flushActions_def fold_applyAction)

lemma flushDeadColliders_eq:
  "flushDeadColliders s =
     s\<lparr>calls := calls s @ map OnColliderRemoved (mDeadColliders s), mDeadColliders := []\<rparr>"
  by (simp add: flushDeadColliders_def fold_call)

lemma flushDeadJoints_eq:
  "flushDeadJoints s =
     s\<lparr>calls := calls s @ map OnJointRemoved (mDeadJoints s), mDeadJoints := []\<rparr>"
  by (simp add: flushDeadJoints_def fold_call)

lemma flushDeadMaterials_eq:
  "flushDeadMaterials s =
     s\<lparr>userData := userData s |` (- set (mDeadMaterials s)),
       calls := calls s @ concat (map (\<lambda>m. [userData_nullptr m, PxBase_release m]) (mDeadMaterials s)),
       mDeadMaterials := []\<rparr>"
  by (simp add: flushDeadMaterials_def fold_release_material)

lemma flushDeadObjects_eq:
  "flushDeadObjects s =
     s\<lparr>calls := calls s @ map PxBase_release (mDeadObjects s), mDeadObjects := []\<rparr>"
  by (simp add: flushDeadObjects_def fold_call)

lemma flushNewActors_eq:
  "mScene s \<noteq> None \<or> mNewActors s = [] \<Longrightarrow>
   flushNewActors s =
     Inr (s\<lparr>mScene := map_option (\<lambda>w. w\<lparr>actors := actors w @ mNewActors s\<rparr>) (mScene s),
           calls := calls s @ (if mNewActors s = [] then [] else [PxScene_addActors (mNewActors s)]),
           mNewActors := []\<rparr>)"
  by (cases "mScene s") (auto simp add: flushNewActors_def call_def)

lemma flushDeadActors_eq:
  "mScene s \<noteq> None \<or> mDeadActors s = [] \<Longrightarrow>
   flushDeadActors s =
     Inr (s\<lparr>mScene := map_option (\<lambda>w. w\<lparr>actors := filter (\<lambda>a. a \<notin> set (mDeadActors s)) (actors w)\<rparr>) (mScene s),
           calls := calls s @ (if mDeadActors s = [] then []
                               else PxScene_removeActors (mDeadActors s) True # map PxBase_release (mDeadActors s)),
           mDeadActors := []\<rparr>)"
  by (cases "mScene s") (auto simp add: flushDeadActors_def call_def fold_call Let_def)

lemma FlushRequests_flushed:
  assumes "\<not> mIsDuringSimulation s"
    and "mScene s \<noteq> None \<or> (mNewActors s = [] \<and> mDeadActors s = [])"
  shows "FlushRequests s = Inr (flushed s)"
proof -
  define s1 where "s1 = s\<lparr>mScene := map_option (\<lambda>w. w\<lparr>actors := actors w @ mNewActors s\<rparr>) (mScene s),
           calls := calls s @ (if mNewActors s = [] then [] else [PxScene_addActors (mNewActors s)]),
           mNewActors := []\<rparr>"
  define s2 where "s2 = flushActions s1"
  define s3 where "s3 = s2\<lparr>mScene := map_option (\<lambda>w. w\<lparr>actors := filter (\<lambda>a. a \<notin> set (mDeadActors s2)) (actors w)\<rparr>) (mScene s2),
           calls := calls s2 @ (if mDeadActors s2 = [] then []
                               else PxScene_removeActors (mDeadActors s2) True # map PxBase_release (mDeadActors s2)),
           mDeadActors := []\<rparr>"
  have 1: "flushNewActors s = Inr s1"
    unfolding s1_def using assms(2) by (intro flushNewActors_eq) auto
  have "mScene s2 \<noteq> None \<or> mDeadActors s2 = []"
    using assms(2) by (auto simp add: s2_def s1_def flushActions_eq)
  then have 3: "flushDeadActors s2 = Inr s3"
    unfolding s3_def by (rule flushDeadActors_eq)
  have "FlushRequests s =
      Inr (flushDeadObjects (flushDeadMaterials (flushDeadJoints (flushDeadColliders s3))))"
    using assms(1) by (simp add: FlushRequests_def IsDuringSimulation_def 1 s2_def [symmetric] 3)
  then show ?thesis
    by (cases "mScene s")
       (simp_all add: s3_def s2_def s1_def flushActions_eq flushDeadColliders_eq
          flushDeadJoints_eq flushDeadMaterials_eq flushDeadObjects_eq flushed_def flushOrder_def)
qed

text \<open>
  C1. A flush outside a step, on a scene whose world exists (or that has no actor to add
  or remove), returns, and the calls it makes are, in this order: one bulk insertion of
  the queued new actors, the queued sleep actions, one bulk removal of the queued dead
  actors followed by the release of each of them, the removal notice of every dead
  collider, then of every dead joint, for every dead material the clearing of its
  back-reference followed by its release, and the release of every dead object. The world
  holds the old and new actors without the dead ones, the back-references of the dead
  materials are null, and all seven queues are empty.
\<close>

theorem FlushRequests_order:
  assumes "\<not> mIsDuringSimulation s"
    and "mScene s \<noteq> None \<or> (mNewActors s = [] \<and> mDeadActors s = [])"
  shows "\<exists>s'. FlushRequests s = Inr s'
    \<and> calls s' = calls s
        @ (if mNewActors s = [] then [] else [PxScene_addActors (mNewActors s)])
        @ map (\<lambda>a. PxRigidDynamic_putToSleep (Actor a)) (mActions s)
        @ (if mDeadActors s = [] then []
           else PxScene_removeActors (mDeadActors s) True # map PxBase_release (mDeadActors s))
        @ map OnColliderRemoved (mDeadColliders s)
        @ map OnJointRemoved (mDeadJoints s)
        @ concat (map (\<lambda>m. [userData_nullptr m, PxBase_release m]) (mDeadMaterials s))
        @ map PxBase_release (mDeadObjects s)
    \<and> mScene s' = map_option
        (\<lambda>w. w\<lparr>actors := filter (\<lambda>a. a \<notin> set (mDeadActors s)) (actors w @ mNewActors s)\<rparr>) (mScene s)
    \<and> userData s' = userData s |` (- set (mDeadMaterials s))
    \<and> mNewActors s' = [] \<and> mActions s' = [] \<and> mDeadActors s' = [] \<and> mDeadColliders s' = []
    \<and> mDeadJoints s' = [] \<and> mDeadMaterials s' = [] \<and> mDeadObjects s' = []"
  using FlushRequests_flushed [OF assms] by (simp add: flushed_def flushOrder_def)

theorem FlushRequests_order_witness:
  "\<exists>s'. FlushRequests scene_pending = Inr s'
     \<and> calls s' = [PxScene_addActors [1, 2], PxRigidDynamic_putToSleep 2,
                    PxScene_removeActors [3] True, PxBase_release 3,
                    OnColliderRemoved 4, OnJointRemoved 5,
                    userData_nullptr 6, PxBase_release 6, PxBase_release 7]
     \<and> mScene s' = Some (world0\<lparr>actors := [8, 1, 2]\<rparr>)
     \<and> userData s' 6 = None
     \<and> mNewActors s' = [] \<and> mActions s' = [] \<and> mDeadActors s' = [] \<and> mDeadColliders s' = []
     \<and> mDeadJoints s' = [] \<and> mDeadMaterials s' = [] \<and> mDeadObjects s' = []"
  using FlushRequests_order [of scene_pending]
  by (auto simp add: scene_pending_def scene0_def world0_def)


subsection \<open>Adding actors\<close>

text \<open>
  C6. Called from the main thread on a scene with a world, both \<open>AddActor\<close> overloads
  insert the actor into the world at once (the dynamic one also puts it to sleep at once
  when asked) and leave the queues as they are. Called from any other thread, they only
  append the actor to the new-actor queue (and a sleep action to the action queue when
  asked), leaving the world and the recorded calls as they are; the next flush then
  inserts the queued actors with this one last and puts it to sleep after the earlier
  queued sleep actions.
\<close>

theorem AddActor_by_thread:
  "(mScene s = Some w \<longrightarrow>
      AddActor True a s =
        Inr (s\<lparr>mScene := Some (w\<lparr>actors := actors w @ [a]\<rparr>),
              calls := calls s @ [PxScene_addActor a]\<rparr>)
      \<and> AddDynamicActor True a putToSleep s =
        Inr (s\<lparr>mScene := Some (w\<lparr>actors := actors w @ [a]\<rparr>),
              calls := calls s @ PxScene_addActor a
                         # (if putToSleep then [PxRigidDynamic_putToSleep a] else [])\<rparr>))
   \<and> AddActor False a s = Inr (s\<lparr>mNewActors := mNewActors s @ [a]\<rparr>)
   \<and> AddDynamicActor False a putToSleep s =
        Inr (s\<lparr>mNewActors := mNewActors s @ [a],
              mActions := mActions s @ (if putToSleep then [\<lparr>Type = Sleep, Actor = a\<rparr>] else [])\<rparr>)
   \<and> (mScene s = Some w \<and> \<not> mIsDuringSimulation s \<longrightarrow>
        (\<exists>s'. FlushRequests
                (s\<lparr>mNewActors := mNewActors s @ [a],
                   mActions := mActions s @ (if putToSleep then [\<lparr>Type = Sleep, Actor = a\<rparr>] else [])\<rparr>)
              = Inr s'
           \<and> mScene s' =
               Some (w\<lparr>actors := filter (\<lambda>x. x \<notin> set (mDeadActors s)) (actors w @ mNewActors s @ [a])\<rparr>)
           \<and> calls s' =
               calls s @ PxScene_addActors (mNewActors s @ [a])
                 # map (\<lambda>x. PxRigidDynamic_putToSleep (Actor x)) (mActions s)
                 @ (if putToSleep then [PxRigidDynamic_putToSleep a] else [])
                 @ flushOrder (s\<lparr>mNewActors := [], mActions := []\<rparr>)))"
proof -
  have flush: "FlushRequests s1 = Inr (flushed s1)"
    if "mScene s = Some w" "\<not> mIsDuringSimulation s"
      "s1 = s\<lparr>mNewActors := mNewActors s @ [a],
                   mActions := mActions s @ (if putToSleep then [\<lparr>Type = Sleep, Actor = a\<rparr>] else [])\<rparr>"
    for s1
    using that by (intro FlushRequests_flushed) simp_all
  show ?thesis
    by (auto simp add: AddActor_def AddDynamicActor_def call_def Let_def flush flushed_def flushOrder_def)
qed

theorem AddActor_by_thread_witness:
  "AddDynamicActor True 9 True scene0 =
     Inr (scene0\<lparr>mScene := Some (world0\<lparr>actors := [8, 9]\<rparr>),
                 calls := [PxScene_addActor 9, PxRigidDynamic_putToSleep 9]\<rparr>)
   \<and> AddDynamicActor False 9 True scene0 =
     Inr (scene0\<lparr>mNewActors := [9], mActions := [\<lparr>Type = Sleep, Actor = 9\<rparr>]\<rparr>)
   \<and> (\<exists>s'. FlushRequests (scene0\<lparr>mNewActors := [9], mActions := [\<lparr>Type = Sleep, Actor = 9\<rparr>]\<rparr>)
             = Inr s'
          \<and> mScene s' = Some (world0\<lparr>actors := [8, 9]\<rparr>)
          \<and> calls s' = [PxScene_addActors [9], PxRigidDynamic_putToSleep 9])"
  using AddActor_by_thread [of scene0 world0 9 True]
  by (simp add: scene0_def world0_def flushOrder_def)

subsection \<open>Simulate\<close>

lemma Math_Clamp_small:
  "0 < eps \<Longrightarrow> dt \<le> 0 \<or> dt < eps \<Longrightarrow> Math_Clamp dt 0 mx < eps"
  by (auto simp add: Math_Clamp_def)

lemma Math_Clamp_large:
  "0 < eps \<Longrightarrow> mx < dt \<Longrightarrow> eps \<le> Math_Clamp dt 0 mx \<Longrightarrow> Math_Clamp dt 0 mx = mx"
  by (auto simp add: Math_Clamp_def split: if_splits)

lemma Simulate_not_dispatched:
  assumes "\<not> mIsDuringSimulation s"
    and "mScene s \<noteq> None \<or> (mNewActors s = [] \<and> mDeadActors s = [])"
    and "Math_Clamp dt 0 (MaxDeltaTime (settings env)) < minimalDelta env"
  shows "\<exists>s'. Simulate env True dt s = Inr s' \<and> mLastDeltaTime s' = mLastDeltaTime s
           \<and> mScene s' = mScene (flushed s) \<and> calls s' = calls (flushed s)"
  using assms(1,3)
  by (simp add: Simulate_def FlushRequests_flushed [OF assms(1,2)] Let_def Stepper_advance_def
        flushed_def)

lemma Simulate_dispatched:
  assumes "\<not> mIsDuringSimulation s"
    and "mScene s \<noteq> None"
    and "minimalDelta env \<le> Math_Clamp dt 0 (MaxDeltaTime (settings env))"
  shows "\<exists>s'. Simulate env True dt s = Inr s'
           \<and> mLastDeltaTime s' = Math_Clamp dt 0 (MaxDeltaTime (settings env))
           \<and> mScene s' = map_option (\<lambda>w. w\<lparr>simulated := simulated w
                             @ [Math_Clamp dt 0 (MaxDeltaTime (settings env))]\<rparr>) (mScene (flushed s))
           \<and> calls s' = calls (flushed s) @ [Events_Clear, Stepper_renderDone]"
proof -
  have "FlushRequests s = Inr (flushed s)"
    using assms(1,2) by (intro FlushRequests_flushed) simp_all
  then show ?thesis
    using assms
    by (cases "mScene s") (simp_all add: Simulate_def Let_def Stepper_advance_def flushed_def call_def)
qed

lemma FlushRequests_Inr:
  assumes "FlushRequests s = Inr s0"
  shows "s0 = flushed s \<and> \<not> mIsDuringSimulation s"
proof -
  from assms have d: "\<not> mIsDuringSimulation s"
    by (simp add: FlushRequests_def IsDuringSimulation_def split: if_splits)
  have "mScene s \<noteq> None \<or> (mNewActors s = [] \<and> mDeadActors s = [])"
  proof (rule ccontr)
    assume "\<not> (mScene s \<noteq> None \<or> (mNewActors s = [] \<and> mDeadActors s = []))"
    then have n: "mScene s = None" and "mNewActors s \<noteq> [] \<or> mDeadActors s \<noteq> []" by auto
    then have "FlushRequests s = Inl NullDereference"
      using d
      by (cases "mNewActors s = []")
         (simp_all add: FlushRequests_def IsDuringSimulation_def flushNewActors_def
            flushDeadActors_def flushActions_eq)
    with assms show False by simp
  qed
  from FlushRequests_flushed [OF d this] assms d show ?thesis by simp
qed

lemma Simulate_effect:
  assumes "Simulate env m dt s = Inr s1"
  shows "mWheelQueryResults s1 = mWheelQueryResults s \<and> mWheelHitResults s1 = mWheelHitResults s
     \<and> mWheelVehicles s1 = mWheelVehicles s
     \<and> (mScene s \<noteq> None \<longrightarrow> mScene s1 \<noteq> None)
     \<and> (ownersKept s \<longrightarrow> ownersKept s1)"
proof -
  from assms obtain s0 where f: "FlushRequests s = Inr s0"
    by (cases "FlushRequests s") (simp_all add: Simulate_def split: if_splits)
  from FlushRequests_Inr [OF f] have s0: "s0 = flushed s" by simp
  from assms f have p:
    "mWheelQueryResults s1 = mWheelQueryResults s \<and> mWheelHitResults s1 = mWheelHitResults s
     \<and> mWheelVehicles s1 = mWheelVehicles s
     \<and> userData s1 = userData s |` (- set (mDeadMaterials s)) \<and> mDeadMaterials s1 = []
     \<and> map_option activeActors (mScene s1) = map_option activeActors (mScene s)"
    by (cases "mScene s")
       (auto simp add: Simulate_def Let_def Stepper_advance_def call_def s0 flushed_def
          split: if_splits option.splits)
  have "ownersKept s1" if k: "ownersKept s"
  proof (cases "mScene s")
    case None
    with p have "mScene s1 = None" by simp
    then show ?thesis by (simp add: ownersKept_def)
  next
    case (Some w)
    with p obtain w1 where "mScene s1 = Some w1" "activeActors w1 = activeActors w"
      by (cases "mScene s1") auto
    with k Some p show ?thesis
      by (auto simp add: ownersKept_def list_all_iff)
  qed
  moreover from p have "mScene s \<noteq> None \<longrightarrow> mScene s1 \<noteq> None"
    by (cases "mScene s1") auto
  ultimately show ?thesis using p by blast
qed

lemma Simulate_total:
  assumes "\<not> mIsDuringSimulation s" and "mScene s \<noteq> None"
  shows "\<exists>s1. Simulate env True dt s = Inr s1"
proof (cases "Math_Clamp dt 0 (MaxDeltaTime (settings env)) < minimalDelta env")
  case True
  with Simulate_not_dispatched [OF assms(1) _ True] assms(2) show ?thesis by blast
next
  case False
  then have "minimalDelta env \<le> Math_Clamp dt 0 (MaxDeltaTime (settings env))" by simp
  from Simulate_dispatched [OF assms this] show ?thesis by blast
qed

text \<open>
  C4, as stated, fails: \<open>Simulate\<close> flushes the pending queues before it looks at the
  delta, so with a queued new actor and a queued dead actor a call with delta 0 changes
  the actors of the world.
\<close>

theorem Simulate_flushes_before_skipping:
  "map_sum id mScene (Simulate env0 True 0 scene_pending) = Inr (Some (world0\<lparr>actors := [8, 1, 2]\<rparr>))
   \<and> mScene scene_pending = Some (world0\<lparr>actors := [3, 8]\<rparr>)
   \<and> map_sum id mScene (Simulate env0 True 0 scene_pending) \<noteq> Inr (mScene scene_pending)"
proof -
  have "\<not> mIsDuringSimulation scene_pending" "mScene scene_pending \<noteq> None"
    by (simp_all add: scene_pending_def scene0_def)
  then have "FlushRequests scene_pending = Inr (flushed scene_pending)"
    by (intro FlushRequests_flushed) simp_all
  then show ?thesis
    by (simp add: Simulate_def Let_def Stepper_advance_def Math_Clamp_def flushed_def
          scene_pending_def scene0_def world0_def env0_def)
qed

text \<open>
  C4, amended. For a stepper whose minimal delta is positive and every delta that is zero,
  negative or below that minimal delta, a call to \<open>Simulate\<close> from the main thread outside
  a step returns without dispatching a step: the recorded last delta is unchanged, no step
  is added to the world, the only calls made are those of the flush, and the world differs
  from before by the flushed actor queues alone (it is unchanged when no actor was queued
  for insertion or removal).
\<close>

theorem Simulate_below_epsilon:
  assumes "\<not> mIsDuringSimulation s"
    and "mScene s \<noteq> None \<or> (mNewActors s = [] \<and> mDeadActors s = [])"
    and "0 < minimalDelta env"
    and "dt \<le> 0 \<or> dt < minimalDelta env"
  shows "\<exists>s'. Simulate env True dt s = Inr s'
    \<and> mLastDeltaTime s' = mLastDeltaTime s
    \<and> mScene s' = map_option
        (\<lambda>w. w\<lparr>actors := filter (\<lambda>a. a \<notin> set (mDeadActors s)) (actors w @ mNewActors s)\<rparr>) (mScene s)
    \<and> map_option simulated (mScene s') = map_option simulated (mScene s)
    \<and> calls s' = calls s @ flushOrder s
    \<and> (mNewActors s = [] \<and> mDeadActors s = [] \<longrightarrow> mScene s' = mScene s)"
proof -
  have "Math_Clamp dt 0 (MaxDeltaTime (settings env)) < minimalDelta env"
    using assms(3,4) by (rule Math_Clamp_small)
  from Simulate_not_dispatched [OF assms(1,2) this] show ?thesis
    by (cases "mScene s") (auto simp add: flushed_def)
qed

theorem Simulate_below_epsilon_witness:
  "(\<exists>s'. Simulate env0 True 0 scene_pending = Inr s'
      \<and> mLastDeltaTime s' = 0
      \<and> mScene s' = Some (world0\<lparr>actors := [8, 1, 2]\<rparr>)
      \<and> map_option simulated (mScene s') = Some []
      \<and> calls s' = flushOrder scene_pending)
   \<and> (\<exists>s'. Simulate env0 True (1 / 2000) scene0 = Inr s'
      \<and> mLastDeltaTime s' = 0 \<and> mScene s' = Some world0 \<and> calls s' = [])"
proof (rule conjI)
  show "\<exists>s'. Simulate env0 True 0 scene_pending = Inr s'
      \<and> mLastDeltaTime s' = 0
      \<and> mScene s' = Some (world0\<lparr>actors := [8, 1, 2]\<rparr>)
      \<and> map_option simulated (mScene s') = Some []
      \<and> calls s' = flushOrder scene_pending"
    using Simulate_below_epsilon [of scene_pending env0 0]
    by (simp add: scene_pending_def scene0_def world0_def env0_def)
  show "\<exists>s'. Simulate env0 True (1 / 2000) scene0 = Inr s'
      \<and> mLastDeltaTime s' = 0 \<and> mScene s' = Some world0 \<and> calls s' = []"
    using Simulate_below_epsilon [of scene0 env0 "1 / 2000"]
    by (auto simp add: scene0_def world0_def env0_def flushOrder_def)
qed

text \<open>
  C5. For a stepper whose minimal delta is positive and every delta greater than the
  configured maximum, a call to \<open>Simulate\<close> from the main thread outside a step whose
  clamped delta the stepper accepts returns; the clamped delta is the configured maximum,
  and that maximum is both the delta of the step dispatched on the world and the recorded
  last delta.
\<close>

theorem Simulate_clamps_delta:
  assumes "\<not> mIsDuringSimulation s"
    and "mScene s = Some w"
    and "0 < minimalDelta env"
    and "MaxDeltaTime (settings env) < dt"
    and "minimalDelta env \<le> Math_Clamp dt 0 (MaxDeltaTime (settings env))"
  shows "\<exists>s'. Simulate env True dt s = Inr s'
    \<and> Math_Clamp dt 0 (MaxDeltaTime (settings env)) = MaxDeltaTime (settings env)
    \<and> mLastDeltaTime s' = MaxDeltaTime (settings env)
    \<and> map_option simulated (mScene s') = Some (simulated w @ [MaxDeltaTime (settings env)])"
proof -
  have c: "Math_Clamp dt 0 (MaxDeltaTime (settings env)) = MaxDeltaTime (settings env)"
    using assms(3,4,5) by (rule Math_Clamp_large)
  have "mScene s \<noteq> None" using assms(2) by simp
  from Simulate_dispatched [OF assms(1) this assms(5)] show ?thesis
    using assms(2) by (auto simp add: c flushed_def)
qed

theorem Simulate_clamps_delta_witness:
  "\<exists>s'. Simulate env0 True (1 / 2) scene_pending = Inr s'
    \<and> Math_Clamp (1 / 2) 0 (1 / 10) = 1 / 10
    \<and> mLastDeltaTime s' = 1 / 10
    \<and> map_option simulated (mScene s') = Some [1 / 10]"
proof -
  have "minimalDelta env0 \<le> Math_Clamp (1 / 2) 0 (MaxDeltaTime (settings env0))"
    by (simp add: env0_def Math_Clamp_def)
  from Simulate_clamps_delta [of scene_pending "world0\<lparr>actors := [3, 8]\<rparr>" env0 "1 / 2", OF _ _ _ _ this]
  show ?thesis
    by (simp add: scene_pending_def scene0_def world0_def env0_def)
qed

subsection \<open>Reverse-as-brake\<close>

text \<open>
  C3, as stated, fails: a vehicle with the reverse-as-brake policy, forward speed -90 and
  throttle +0.5 whose target gear is a forward gear keeps its throttle of 0.5; the throttle
  is blocked only against an opposing target gear.
\<close>

theorem reverse_as_brake_counterexample:
  "UseReverseAsBrake car_rolling_back \<and> GetForwardSpeed car_rolling_back = - 90
   \<and> v_throttle car_rolling_back = 1 / 2
   \<and> VehicleInput env0 car_rolling_back = (car_rolling_back, 1 / 2, 1)
   \<and> fst (snd (VehicleInput env0 car_rolling_back)) \<noteq> 0"
  by (simp add: VehicleInput_def car_rolling_back_def car_def env0_def Let_def)

text \<open>
  C3, amended. For every vehicle with the reverse-as-brake policy, forward speed -90 and
  raw throttle +0.5, the gears are left alone, the effective brake is 1, and the effective
  throttle is 0 when the vehicle's target gear is negative and stays 0.5 otherwise; with
  analog steering these are the accelerator and brake values handed to the input smoother.
\<close>

theorem reverse_as_brake_lockout:
  assumes "UseReverseAsBrake v" and "GetForwardSpeed v = - 90" and "v_throttle v = 1 / 2"
  shows "VehicleInput env v = (v, if GetTargetGear v < 0 then 0 else 1 / 2, 1)
    \<and> (UseAnalogSteering v \<and> v_driveTypeCurrent v \<noteq> NoDrive \<longrightarrow>
         calls (smoothInputs v (if GetTargetGear v < 0 then 0 else 1 / 2) 1 s) =
           calls s @ [SmoothRawInputsAndSetAnalogInputs (v_driveTypeCurrent v)
                        (AnalogInputs (if GetTargetGear v < 0 then 0 else 1 / 2) 1
                           (v_steering v) (v_handBrake v)) (mLastDeltaTime s)])"
  using assms
  by (cases "v_driveTypeCurrent v") (simp_all add: VehicleInput_def smoothInputs_def Let_def call_def)

theorem reverse_as_brake_lockout_witness:
  "VehicleInput env0 car_reversing = (car_reversing, 0, 1)
   \<and> calls (smoothInputs car_reversing 0 1 scene_stepping) =
        [SmoothRawInputsAndSetAnalogInputs Drive4W (AnalogInputs 0 1 0 0) (1 / 60)]"
  using reverse_as_brake_lockout [of car_reversing env0 scene_stepping]
  by (simp add: car_reversing_def car_def scene_stepping_def scene0_def)

subsection \<open>Settings of a scene without a world\<close>

text \<open>
  C8. On a scene without a live world, with the engine's default gravity of
  (0, -981, 0), \<open>GetGravity\<close> answers the zero vector, which is not the default gravity,
  while \<open>GetEnableCCD\<close> answers the negation of the engine's disable flag and
  \<open>GetBounceThresholdVelocity\<close> the engine's default threshold.
\<close>

theorem settings_getters_without_world:
  "mScene scene_no_world = None
   \<and> GetGravity scene_no_world = (0, 0, 0)
   \<and> DefaultGravity (settings env0) = (0, - 981, 0)
   \<and> GetGravity scene_no_world \<noteq> DefaultGravity (settings env0)
   \<and> GetEnableCCD env0 scene_no_world = (\<not> DisableCCD (settings env0))
   \<and> GetBounceThresholdVelocity env0 scene_no_world = BounceThresholdVelocity (settings env0)"
  by (simp add: scene_no_world_def scene0_def env0_def GetGravity_def GetEnableCCD_def
        GetBounceThresholdVelocity_def)

subsection \<open>Per-vehicle wheel records\<close>

text \<open>
  C10. With an inactive two-wheel vehicle registered ahead of an active four-wheel one,
  the frame caches the four-wheel drive for the batched update, but the wheel-query
  record prepared for it carries the wheel count 2 of the inactive vehicle: the loop reads
  the registered list at the compacted index.
\<close>

theorem wheel_count_of_interleaved_vehicles:
  "map_sum id (\<lambda>s'. (map getNbWheels (mWheelVehiclesCache s'),
                      map nbWheelQueryResults (mWheelVehiclesResultsPerVehicle s')))
     (CollectResults env0 True (scene_stepping\<lparr>mWheelVehicles := [car False 2, car True 4]\<rparr>))
   = Inr ([4], [2])"
  by (simp add: CollectResults_def updateVehicles_def updateBatchQueries_def
        setupTireFrictions_def setupWheelCache_def runVehicleUpdates_def Resize_def flushActiveTransforms_def sendEvents_def
        VehicleInput_def smoothInputs_def call_def car_def scene_stepping_def scene0_def
        world0_def env0_def Let_def)

subsection \<open>The vehicle pipeline and the mid-step flag\<close>

lemma Extends_refl: "Extends s s"
  by (simp add: Extends_def)

lemma Extends_trans: "Extends s s1 \<Longrightarrow> Extends s1 s2 \<Longrightarrow> Extends s s2"
  by (auto simp add: Extends_def intro: prefix_order.trans)

lemma Extends_call: "Extends s (call c s)"
  by (simp add: Extends_def call_def)

lemma Extends_smoothInputs: "Extends s (smoothInputs v t b s)"
  by (cases "v_driveTypeCurrent v")
     (simp_all add: smoothInputs_def Let_def Extends_call Extends_refl)

lemma Extends_cache: "Extends s (s\<lparr>mWheelVehiclesCache := c\<rparr>)"
  by (simp add: Extends_def)

lemma updateSteering_effect:
  "updateSteering env vs wc s = Inr (vs', wc', s') \<Longrightarrow>
     wc' = wc + activeWheels vs \<and> Extends s s'"
proof (induction vs arbitrary: wc s vs' wc' s')
  case Nil
  then show ?case by (simp add: activeWheels_def Extends_refl)
next
  case (Cons v vs)
  show ?case
  proof (cases "IsActiveInHierarchy v")
    case False
    with Cons.prems have "\<exists>rest'. updateSteering env vs wc s = Inr (rest', wc', s')"
      by (simp split: sum.splits prod.splits)
    then obtain rest' where "updateSteering env vs wc s = Inr (rest', wc', s')" ..
    from Cons.IH [OF this] False show ?thesis by (simp add: activeWheels_def)
  next
    case True
    with Cons.prems obtain drive where d: "v_drive v = Some drive"
      by (cases "v_drive v") simp_all
    obtain v1 t b where vi: "VehicleInput env v = (v1, t, b)"
      by (cases "VehicleInput env v") auto
    define s0 where "s0 = smoothInputs v1 t b (s\<lparr>mWheelVehiclesCache := mWheelVehiclesCache s @ [drive]\<rparr>)"
    have e0: "Extends s s0"
      unfolding s0_def by (rule Extends_trans [OF Extends_cache Extends_smoothInputs])
    from Cons.prems True d vi have
      "\<exists>rest'. updateSteering env vs (wc + getNbWheels drive) s0 = Inr (rest', wc', s')"
      by (simp add: s0_def split: sum.splits prod.splits)
    then obtain rest' where
      "updateSteering env vs (wc + getNbWheels drive) s0 = Inr (rest', wc', s')" ..
    from Cons.IH [OF this] have "wc' = wc + getNbWheels drive + activeWheels vs" "Extends s0 s'"
      by simp_all
    with True d e0 show ?thesis
      by (simp add: activeWheels_def Extends_trans [OF e0])
  qed
qed

lemma synchronizeState_effect:
  "synchronizeState vs i ii s = Inr s' \<Longrightarrow> Extends s s'"
proof (induction vs arbitrary: i ii s)
  case Nil
  then show ?case by (simp add: Extends_refl)
next
  case (Cons v vs)
  show ?case
  proof (cases "IsActiveInHierarchy v")
    case False
    with Cons show ?thesis by simp
  next
    case True
    with Cons.prems have "synchronizeState vs (i + 1) (ii + 1) (call (SynchronizeWheels i ii) s) = Inr s'"
      by (simp split: if_splits)
    from Cons.IH [OF this] show ?thesis
      by (rule Extends_trans [OF Extends_call])
  qed
qed

lemma updateBatchQueries_effect:
  "updateBatchQueries wc s = Inr s' \<Longrightarrow>
     mWheelQueryResults s' = max (mWheelQueryResults s) wc
     \<and> mWheelHitResults s' = (if wc > mWheelQueryResults s then wc else mWheelHitResults s)
     \<and> mScene s' = mScene s \<and> mStepper s' = mStepper s
     \<and> mIsDuringSimulation s' = mIsDuringSimulation s
     \<and> userData s' = userData s \<and> mDeadMaterials s' = mDeadMaterials s
     \<and> prefix (calls s) (calls s')"
  by (auto simp add: updateBatchQueries_def Let_def call_def split: if_splits option.splits)

lemma setupWheelCache_effect:
  "setupWheelCache wc s = Inr s' \<Longrightarrow> Extends s s'"
  by (auto simp add: setupWheelCache_def Let_def Extends_def split: sum.splits)

lemma runVehicleUpdates_effect:
  "runVehicleUpdates s = Inr s' \<Longrightarrow>
     Extends s s' \<and> mWheelVehiclesCache s' = mWheelVehiclesCache s
     \<and> mWheelVehicles s' = mWheelVehicles s
     \<and> mWheelVehiclesResultsPerVehicle s' = mWheelVehiclesResultsPerVehicle s"
  by (auto simp add: runVehicleUpdates_def call_def Extends_def Let_def
        split: if_splits option.splits)

lemma runVehicleUpdates_total:
  "mScene s \<noteq> None \<Longrightarrow> \<exists>s'. runVehicleUpdates s = Inr s'"
  by (auto simp add: runVehicleUpdates_def call_def Let_def)

lemma setupTireFrictions_effect: "Extends s (setupTireFrictions s)"
  by (simp add: setupTireFrictions_def call_def Extends_def)

lemma updateVehicles_effect:
  assumes "updateVehicles env s = Inr s'"
  shows "mWheelQueryResults s' =
           max (mWheelQueryResults s) (if mWheelVehicles s = [] then 0 else activeWheels (mWheelVehicles s))
     \<and> mWheelHitResults s' =
           (if mWheelVehicles s \<noteq> [] \<and> activeWheels (mWheelVehicles s) > mWheelQueryResults s
            then activeWheels (mWheelVehicles s) else mWheelHitResults s)
     \<and> mScene s' = mScene s \<and> mStepper s' = mStepper s
     \<and> mIsDuringSimulation s' = mIsDuringSimulation s
     \<and> userData s' = userData s \<and> mDeadMaterials s' = mDeadMaterials s
     \<and> prefix (calls s) (calls s')"
proof (cases "mWheelVehicles s = []")
  case True
  with assms show ?thesis by (simp add: updateVehicles_def)
next
  case False
  from assms False have "\<exists>vs' wc s1 s2 s3 s4.
    updateSteering env (mWheelVehicles s) 0 (s\<lparr>mWheelVehiclesCache := []\<rparr>) = Inr (vs', wc, s1)
    \<and> updateBatchQueries wc (s1\<lparr>mWheelVehicles := vs'\<rparr>) = Inr s2
    \<and> setupWheelCache wc (setupTireFrictions s2) = Inr s3
    \<and> runVehicleUpdates s3 = Inr s4
    \<and> synchronizeState (mWheelVehicles s4) 0 0 s4 = Inr s'"
    unfolding updateVehicles_def by (simp split: sum.splits prod.splits)
  then obtain vs' wc s1 s2 s3 s4 where
    1: "updateSteering env (mWheelVehicles s) 0 (s\<lparr>mWheelVehiclesCache := []\<rparr>) = Inr (vs', wc, s1)"
    and 2: "updateBatchQueries wc (s1\<lparr>mWheelVehicles := vs'\<rparr>) = Inr s2"
    and 3: "setupWheelCache wc (setupTireFrictions s2) = Inr s3"
    and 5: "runVehicleUpdates s3 = Inr s4"
    and 4: "synchronizeState (mWheelVehicles s4) 0 0 s4 = Inr s'"
    by blast
  from updateSteering_effect [OF 1] have
    wc: "wc = activeWheels (mWheelVehicles s)" and
    s1: "Extends (s\<lparr>mWheelVehiclesCache := []\<rparr>) s1"
    by simp_all
  have a: "Extends s s1"
    by (rule Extends_trans [OF Extends_cache s1])
  from runVehicleUpdates_effect [OF 5] have r: "Extends s3 s4" by simp
  have b: "Extends s2 s'"
    by (rule Extends_trans [OF setupTireFrictions_effect
          Extends_trans [OF setupWheelCache_effect [OF 3]
            Extends_trans [OF r synchronizeState_effect [OF 4]]]])
  have c: "mWheelQueryResults s2 = max (mWheelQueryResults s1) wc"
    "mWheelHitResults s2 = (if wc > mWheelQueryResults s1 then wc else mWheelHitResults s1)"
    "mScene s2 = mScene s1" "mIsDuringSimulation s2 = mIsDuringSimulation s1"
    "mStepper s2 = mStepper s1" "userData s2 = userData s1" "mDeadMaterials s2 = mDeadMaterials s1"
    "prefix (calls s1) (calls s2)"
    using updateBatchQueries_effect [OF 2] by simp_all
  have "prefix (calls s) (calls s')"
    using a b c(8) unfolding Extends_def by (blast intro: prefix_order.trans)
  with a b c(1-7) False show ?thesis
    by (simp add: Extends_def wc)
qed

lemma VehicleInput_keeps:
  "gearSetterKeeps env \<Longrightarrow>
     IsActiveInHierarchy (fst (VehicleInput env v)) = IsActiveInHierarchy v
     \<and> v_drive (fst (VehicleInput env v)) = v_drive v"
  by (simp add: VehicleInput_def Let_def gearSetterKeeps_def)

lemma updateSteering_total:
  assumes "gearSetterKeeps env"
  shows "haveDrives vs \<Longrightarrow>
     \<exists>vs' wc' s'. updateSteering env vs wc s = Inr (vs', wc', s')
        \<and> map IsActiveInHierarchy vs' = map IsActiveInHierarchy vs
        \<and> map v_drive vs' = map v_drive vs
        \<and> length (mWheelVehiclesCache s') =
             length (mWheelVehiclesCache s) + length (filter IsActiveInHierarchy vs)"
proof (induction vs arbitrary: wc s)
  case Nil
  then show ?case by simp
next
  case (Cons v vs)
  then have hd: "haveDrives vs" and "v_drive v \<noteq> None"
    by (simp_all add: haveDrives_def)
  then obtain drive where d: "v_drive v = Some drive" by auto
  show ?case
  proof (cases "IsActiveInHierarchy v")
    case False
    from Cons.IH [OF hd, of wc s] obtain vs' wc' s' where
      "updateSteering env vs wc s = Inr (vs', wc', s')"
      "map IsActiveInHierarchy vs' = map IsActiveInHierarchy vs"
      "map v_drive vs' = map v_drive vs"
      "length (mWheelVehiclesCache s') =
             length (mWheelVehiclesCache s) + length (filter IsActiveInHierarchy vs)"
      by blast
    with False show ?thesis by simp
  next
    case True
    obtain v1 t b where vi: "VehicleInput env v = (v1, t, b)"
      by (cases "VehicleInput env v") auto
    with VehicleInput_keeps [OF assms, of v] have
      k: "IsActiveInHierarchy v1 = IsActiveInHierarchy v" "v_drive v1 = v_drive v"
      by simp_all
    define s0 where "s0 = smoothInputs v1 t b (s\<lparr>mWheelVehiclesCache := mWheelVehiclesCache s @ [drive]\<rparr>)"
    have c0: "mWheelVehiclesCache s0 = mWheelVehiclesCache s @ [drive]"
      unfolding s0_def
      by (cases "v_driveTypeCurrent v1") (simp_all add: smoothInputs_def Let_def call_def)
    from Cons.IH [OF hd, of "wc + getNbWheels drive" s0] obtain vs' wc' s' where
      "updateSteering env vs (wc + getNbWheels drive) s0 = Inr (vs', wc', s')"
      "map IsActiveInHierarchy vs' = map IsActiveInHierarchy vs"
      "map v_drive vs' = map v_drive vs"
      "length (mWheelVehiclesCache s') =
             length (mWheelVehiclesCache s0) + length (filter IsActiveInHierarchy vs)"
      by blast
    with True d vi k c0 show ?thesis by (simp add: s0_def)
  qed
qed

lemma setupWheelStates_total:
  "haveDrives vehicles \<Longrightarrow> ii + length (filter IsActiveInHierarchy rest) \<le> length perVehicle \<Longrightarrow>
   ii + length rest \<le> length vehicles \<Longrightarrow>
     \<exists>perVehicle'. setupWheelStates vehicles rest ii wc perVehicle = Inr perVehicle'
        \<and> length perVehicle' = length perVehicle"
proof (induction rest arbitrary: ii wc perVehicle)
  case Nil
  then show ?case by simp
next
  case (Cons v rest)
  show ?case
  proof (cases "IsActiveInHierarchy v")
    case False
    with Cons.prems Cons.IH [of ii perVehicle wc] show ?thesis by simp
  next
    case True
    with Cons.prems have lt: "ii < length vehicles" "ii < length perVehicle" by simp_all
    with Cons.prems(1) have "v_drive (vehicles ! ii) \<noteq> None"
      by (simp add: haveDrives_def list_all_length)
    then obtain drive where d: "v_drive (vehicles ! ii) = Some drive" by auto
    from Cons.prems True
    have "\<exists>perVehicle'. setupWheelStates vehicles rest (ii + 1) (wc + getNbWheels drive)
            (perVehicle[ii := \<lparr>nbWheelQueryResults = getNbWheels drive, wheelQueryResults = wc\<rparr>])
            = Inr perVehicle'
          \<and> length perVehicle' =
              length (perVehicle[ii := \<lparr>nbWheelQueryResults = getNbWheels drive, wheelQueryResults = wc\<rparr>])"
      by (intro Cons.IH) simp_all
    with True lt d show ?thesis by simp
  qed
qed

lemma synchronizeState_total:
  "ii + length (filter IsActiveInHierarchy vs) \<le> length (mWheelVehiclesCache s) \<Longrightarrow>
   ii + length (filter IsActiveInHierarchy vs) \<le> length (mWheelVehiclesResultsPerVehicle s) \<Longrightarrow>
     \<exists>s'. synchronizeState vs i ii s = Inr s'"
proof (induction vs arbitrary: i ii s)
  case Nil
  then show ?case by simp
next
  case (Cons v vs)
  show ?case
  proof (cases "IsActiveInHierarchy v")
    case False
    with Cons.prems Cons.IH [of ii s "i + 1"] show ?thesis by simp
  next
    case True
    with Cons.prems Cons.IH [of "ii + 1" "call (SynchronizeWheels i ii) s" "i + 1"]
    show ?thesis by (simp add: call_def)
  qed
qed

lemma length_filter_map_eq:
  "map P xs = map P ys \<Longrightarrow> length (filter P xs) = length (filter P ys)"
proof (induction xs arbitrary: ys)
  case Nil
  then show ?case by simp
next
  case (Cons x xs)
  then obtain y ys' where "ys = y # ys'" by (cases ys) auto
  with Cons show ?case by auto
qed

lemma haveDrives_map:
  "map v_drive vs' = map v_drive vs \<Longrightarrow> haveDrives vs \<Longrightarrow> haveDrives vs'"
  unfolding haveDrives_def list_all_iff
  by (metis (mono_tags, lifting) image_iff list.set_map)

lemma length_Resize: "length (Resize n d xs) = n"
  by (simp add: Resize_def)

lemma updateBatchQueries_total:
  "mScene s \<noteq> None \<Longrightarrow>
     \<exists>s'. updateBatchQueries wc s = Inr s'
        \<and> mWheelVehiclesCache s' = mWheelVehiclesCache s
        \<and> mWheelVehicles s' = mWheelVehicles s"
  by (auto simp add: updateBatchQueries_def Let_def call_def)

lemma setupTireFrictions_keeps:
  "mWheelVehiclesCache (setupTireFrictions s) = mWheelVehiclesCache s
   \<and> mWheelVehicles (setupTireFrictions s) = mWheelVehicles s"
  by (simp add: setupTireFrictions_def call_def)

lemma setupWheelCache_total:
  assumes "haveDrives (mWheelVehicles s)"
    and "length (filter IsActiveInHierarchy (mWheelVehicles s)) \<le> length (mWheelVehiclesCache s)"
  shows "\<exists>s'. setupWheelCache wc s = Inr s'
     \<and> mWheelVehiclesCache s' = mWheelVehiclesCache s
     \<and> mWheelVehicles s' = mWheelVehicles s
     \<and> length (mWheelVehiclesResultsPerVehicle s') = length (mWheelVehiclesCache s)"
proof -
  define pv where "pv = Resize (length (mWheelVehiclesCache s))
                    \<lparr>nbWheelQueryResults = 0, wheelQueryResults = 0\<rparr>
                    (mWheelVehiclesResultsPerVehicle s)"
  have "0 + length (filter IsActiveInHierarchy (mWheelVehicles s)) \<le> length pv"
    "0 + length (mWheelVehicles s) \<le> length (mWheelVehicles s)"
    using assms(2) by (simp_all add: pv_def length_Resize)
  from setupWheelStates_total [OF assms(1) this, of 0] obtain pv' where
    "setupWheelStates (mWheelVehicles s) (mWheelVehicles s) 0 0 pv = Inr pv'"
    "length pv' = length pv"
    by blast
  then show ?thesis
    by (simp add: setupWheelCache_def Let_def pv_def [symmetric]) (simp add: pv_def length_Resize)
qed

lemma updateVehicles_total:
  assumes "gearSetterKeeps env" and "haveDrives (mWheelVehicles s)" and "mScene s \<noteq> None"
  shows "\<exists>s'. updateVehicles env s = Inr s'"
proof (cases "mWheelVehicles s = []")
  case True
  then show ?thesis by (simp add: updateVehicles_def)
next
  case False
  from updateSteering_total [OF assms(1,2), of 0 "s\<lparr>mWheelVehiclesCache := []\<rparr>"]
  obtain vs' wc s1 where
    1: "updateSteering env (mWheelVehicles s) 0 (s\<lparr>mWheelVehiclesCache := []\<rparr>) = Inr (vs', wc, s1)"
    and act: "map IsActiveInHierarchy vs' = map IsActiveInHierarchy (mWheelVehicles s)"
    and drv: "map v_drive vs' = map v_drive (mWheelVehicles s)"
    and len: "length (mWheelVehiclesCache s1) = length (filter IsActiveInHierarchy (mWheelVehicles s))"
    by auto
  from updateSteering_effect [OF 1] have sc1: "mScene s1 = mScene s"
    by (simp add: Extends_def)
  with assms(3) have "mScene (s1\<lparr>mWheelVehicles := vs'\<rparr>) \<noteq> None" by simp
  from updateBatchQueries_total [OF this, of wc] obtain s2 where
    2: "updateBatchQueries wc (s1\<lparr>mWheelVehicles := vs'\<rparr>) = Inr s2"
    and k2: "mWheelVehiclesCache s2 = mWheelVehiclesCache s1" "mWheelVehicles s2 = vs'"
    by auto
  from updateBatchQueries_effect [OF 2] sc1 have sc2: "mScene s2 = mScene s" by simp
  have hd: "haveDrives (mWheelVehicles (setupTireFrictions s2))"
    using haveDrives_map [OF drv assms(2)] by (simp add: setupTireFrictions_keeps k2)
  have le: "length (filter IsActiveInHierarchy (mWheelVehicles (setupTireFrictions s2)))
             \<le> length (mWheelVehiclesCache (setupTireFrictions s2))"
    using length_filter_map_eq [OF act] by (simp add: setupTireFrictions_keeps k2 len)
  from setupWheelCache_total [OF hd le, of wc] obtain s3 where
    3: "setupWheelCache wc (setupTireFrictions s2) = Inr s3"
    and k3: "mWheelVehiclesCache s3 = mWheelVehiclesCache s1" "mWheelVehicles s3 = vs'"
      "length (mWheelVehiclesResultsPerVehicle s3) = length (mWheelVehiclesCache s1)"
    by (auto simp add: setupTireFrictions_keeps k2)
  have "Extends s2 s3"
    by (rule Extends_trans [OF setupTireFrictions_effect setupWheelCache_effect [OF 3]])
  with sc2 assms(3) have "mScene s3 \<noteq> None" by (simp add: Extends_def)
  from runVehicleUpdates_total [OF this] obtain s4 where 5: "runVehicleUpdates s3 = Inr s4" ..
  note k4 = runVehicleUpdates_effect [OF 5]
  have "0 + length (filter IsActiveInHierarchy (mWheelVehicles s4))
          \<le> length (mWheelVehiclesCache s4)"
    "0 + length (filter IsActiveInHierarchy (mWheelVehicles s4))
          \<le> length (mWheelVehiclesResultsPerVehicle s4)"
    using length_filter_map_eq [OF act] by (simp_all add: k4 k3 len)
  from synchronizeState_total [OF this, of 0] obtain s' where
    "synchronizeState (mWheelVehicles s4) 0 0 s4 = Inr s'"
    by blast
  with False 1 2 3 5 show ?thesis
    by (simp add: updateVehicles_def)
qed

lemma notifyActiveActors_effect:
  "notifyActiveActors as s = Inr s' \<Longrightarrow> Extends s s'"
proof (induction as arbitrary: s)
  case Nil
  then show ?case by (simp add: Extends_refl)
next
  case (Cons a as)
  then obtain owner where "userData s a = Some owner"
    and "notifyActiveActors as (call (OnActiveTransformChanged owner) s) = Inr s'"
    by (auto split: option.splits)
  from Cons.IH [OF this(2)] show ?case
    by (rule Extends_trans [OF Extends_call])
qed

lemma notifyActiveActors_total:
  "list_all (\<lambda>a. userData s a \<noteq> None) as \<Longrightarrow> \<exists>s'. notifyActiveActors as s = Inr s'"
proof (induction as arbitrary: s)
  case Nil
  then show ?case by simp
next
  case (Cons a as)
  then obtain owner where o: "userData s a = Some owner" by auto
  from Cons.prems have "list_all (\<lambda>a. userData (call (OnActiveTransformChanged owner) s) a \<noteq> None) as"
    by (simp add: call_def)
  from Cons.IH [OF this] o show ?case by simp
qed

lemma CollectResults_total:
  assumes "gearSetterKeeps env" and "haveDrives (mWheelVehicles s)" and "mScene s \<noteq> None"
    and "mStepper s \<noteq> None" and "ownersPresent s"
  shows "\<exists>s'. CollectResults env True s = Inr s'"
proof (cases "mIsDuringSimulation s")
  case False
  then show ?thesis by (simp add: CollectResults_def)
next
  case True
  have "\<exists>s1. updateVehicles env (call Stepper_wait s) = Inr s1"
    using assms(2,3) by (intro updateVehicles_total [OF assms(1)]) (simp_all add: call_def)
  then obtain s1 where 1: "updateVehicles env (call Stepper_wait s) = Inr s1" ..
  from updateVehicles_effect [OF 1] have k: "mScene s1 = mScene s" "userData s1 = userData s"
    by (simp_all add: call_def)
  from assms(3) obtain w where w: "mScene s = Some w" by auto
  with assms(5) k have "list_all (\<lambda>a. userData s1 a \<noteq> None) (activeActors w)"
    by (simp add: ownersPresent_def)
  from notifyActiveActors_total [OF this] obtain s2 where "flushActiveTransforms s1 = Inr s2"
    by (auto simp add: flushActiveTransforms_def k w)
  with True assms(4) 1 show ?thesis
    by (simp add: CollectResults_def)
qed

lemma CollectResults_effect:
  assumes "CollectResults env m s = Inr s'" and "mIsDuringSimulation s"
  shows "\<not> mIsDuringSimulation s' \<and> mScene s' = mScene s \<and> mStepper s' = mStepper s
     \<and> userData s' = userData s \<and> mDeadMaterials s' = mDeadMaterials s
     \<and> mWheelQueryResults s' =
           max (mWheelQueryResults s) (if mWheelVehicles s = [] then 0 else activeWheels (mWheelVehicles s))
     \<and> mWheelHitResults s' =
           (if mWheelVehicles s \<noteq> [] \<and> activeWheels (mWheelVehicles s) > mWheelQueryResults s
            then activeWheels (mWheelVehicles s) else mWheelHitResults s)
     \<and> prefix (calls s @ [Stepper_wait]) (calls s')
     \<and> suffix [Events_CollectResults, Events_SendTriggerEvents, Events_SendCollisionEvents,
                Events_SendJointEvents] (calls s')"
proof -
  from assms have "\<exists>s1 s2. updateVehicles env (call Stepper_wait s) = Inr s1
      \<and> flushActiveTransforms s1 = Inr s2
      \<and> s' = (sendEvents s2)\<lparr>mIsDuringSimulation := False\<rparr>"
    by (auto simp add: CollectResults_def split: if_splits sum.splits)
  then obtain s1 s2 where
    1: "updateVehicles env (call Stepper_wait s) = Inr s1"
    and 2: "flushActiveTransforms s1 = Inr s2"
    and 3: "s' = (sendEvents s2)\<lparr>mIsDuringSimulation := False\<rparr>"
    by blast
  note e1 = updateVehicles_effect [OF 1]
  from 2 have "Extends s1 s2"
    by (auto simp add: flushActiveTransforms_def split: option.splits
          intro: notifyActiveActors_effect)
  then have e2: "mScene s2 = mScene s1" "mStepper s2 = mStepper s1" "userData s2 = userData s1"
    "mDeadMaterials s2 = mDeadMaterials s1" "mWheelQueryResults s2 = mWheelQueryResults s1"
    "mWheelHitResults s2 = mWheelHitResults s1" "prefix (calls s1) (calls s2)"
    by (simp_all add: Extends_def)
  have c: "calls s' = calls s2 @ [Events_CollectResults, Events_SendTriggerEvents,
                Events_SendCollisionEvents, Events_SendJointEvents]"
    by (simp add: 3 sendEvents_def call_def)
  have "prefix (calls s @ [Stepper_wait]) (calls s1)"
    using e1 by (simp add: call_def)
  also note e2(7)
  also have "prefix (calls s2) (calls s')"
    by (simp add: c)
  finally have p: "prefix (calls s @ [Stepper_wait]) (calls s')" .
  have q: "suffix [Events_CollectResults, Events_SendTriggerEvents, Events_SendCollisionEvents,
                Events_SendJointEvents] (calls s')"
    unfolding c by (rule suffixI) simp
  have "mWheelQueryResults s' = mWheelQueryResults s2" "mWheelHitResults s' = mWheelHitResults s2"
    "mScene s' = mScene s2" "\<not> mIsDuringSimulation s'" "mStepper s' = mStepper s2"
    "userData s' = userData s2" "mDeadMaterials s' = mDeadMaterials s2"
    by (simp_all add: 3 sendEvents_def call_def)
  with e1 e2 p q show ?thesis by (simp add: call_def)
qed

lemma Simulate_flag:
  assumes "Simulate env m dt s = Inr s1"
  shows "mIsDuringSimulation s1 \<and> mStepper s1 \<noteq> None"
proof -
  from assms obtain s0 where "FlushRequests s = Inr s0"
    by (cases "FlushRequests s") (simp_all add: Simulate_def split: if_splits)
  with assms show ?thesis
    by (auto simp add: Simulate_def Let_def Stepper_advance_def call_def
          split: if_splits option.splits)
qed

lemma perform_keeps_flag:
  assumes "perform env m op s = Inr s'" and "mIsDuringSimulation s" and "op \<noteq> Op_CollectResults"
  shows "mIsDuringSimulation s'"
  using assms
  by (cases op)
     (auto simp add: Simulate_def FlushRequests_def IsDuringSimulation_def AddActor_def
        AddDynamicActor_def UnlinkActor_def RemoveActor_def RemoveCollider_def RemoveJoint_def
        RemoveMaterial_def RemoveObject_def SetGravity_def SetEnableCCD_def
        SetBounceThresholdVelocity_def SetAutoSimulation_def call_def clearUserData_def Let_def
        split: if_splits option.splits)

lemma activeWheels_Nil: "activeWheels [] = 0"
  by (simp add: activeWheels_def)

lemma smoothInputs_eq:
  "smoothInputs v t b s = s\<lparr>calls := calls s @ smoothCalls v t b (mLastDeltaTime s)\<rparr>"
  by (cases "v_driveTypeCurrent v") (simp_all add: smoothInputs_def smoothCalls_def Let_def call_def)

lemma updateSteering_eq:
  "updateSteering env vs wc s = Inr (vs', wc', s') \<Longrightarrow>
     vs' = steered env vs
     \<and> s' = s\<lparr>mWheelVehiclesCache := mWheelVehiclesCache s @ activeDrives vs,
              calls := calls s @ inputCalls env (mLastDeltaTime s) vs\<rparr>"
proof (induction vs arbitrary: wc s vs' wc' s')
  case Nil
  then show ?case by (simp add: steered_def)
next
  case (Cons v vs)
  show ?case
  proof (cases "IsActiveInHierarchy v")
    case False
    with Cons.prems have "\<exists>rest'. updateSteering env vs wc s = Inr (rest', wc', s') \<and> vs' = v # rest'"
      by (simp split: sum.splits prod.splits)
    then obtain rest' where r: "updateSteering env vs wc s = Inr (rest', wc', s')" "vs' = v # rest'"
      by blast
    from Cons.IH [OF r(1)] r(2) False show ?thesis by (simp add: steered_def)
  next
    case True
    with Cons.prems obtain drive where d: "v_drive v = Some drive"
      by (cases "v_drive v") simp_all
    obtain v1 t b where vi: "VehicleInput env v = (v1, t, b)"
      by (cases "VehicleInput env v") auto
    define s0 where "s0 = s\<lparr>mWheelVehiclesCache := mWheelVehiclesCache s @ [drive],
                             calls := calls s @ smoothCalls v1 t b (mLastDeltaTime s)\<rparr>"
    have s0: "smoothInputs v1 t b (s\<lparr>mWheelVehiclesCache := mWheelVehiclesCache s @ [drive]\<rparr>) = s0"
      by (simp add: smoothInputs_eq s0_def)
    from Cons.prems True d vi have
      "\<exists>rest'. updateSteering env vs (wc + getNbWheels drive) s0 = Inr (rest', wc', s')
         \<and> vs' = v1 # rest'"
      by (simp add: s0 split: sum.splits prod.splits)
    then obtain rest' where
      r: "updateSteering env vs (wc + getNbWheels drive) s0 = Inr (rest', wc', s')" "vs' = v1 # rest'"
      by blast
    from Cons.IH [OF r(1)] have
      "rest' = steered env vs"
      "s' = s0\<lparr>mWheelVehiclesCache := mWheelVehiclesCache s0 @ activeDrives vs,
               calls := calls s0 @ inputCalls env (mLastDeltaTime s0) vs\<rparr>"
      by simp_all
    with r(2) True d vi show ?thesis
      by (simp add: s0_def steered_def)
  qed
qed

lemma synchronizeState_eq:
  "synchronizeState vs i ii s = Inr s' \<Longrightarrow> s' = s\<lparr>calls := calls s @ syncCalls vs i ii\<rparr>"
proof (induction vs arbitrary: i ii s)
  case Nil
  then show ?case by simp
next
  case (Cons v vs)
  show ?case
  proof (cases "IsActiveInHierarchy v")
    case False
    with Cons.prems have "synchronizeState vs (i + 1) ii s = Inr s'" by simp
    from Cons.IH [OF this] False show ?thesis by simp
  next
    case True
    with Cons.prems have "synchronizeState vs (i + 1) (ii + 1) (call (SynchronizeWheels i ii) s) = Inr s'"
      by (simp split: if_splits)
    from Cons.IH [OF this] True show ?thesis by (simp add: call_def)
  qed
qed

lemma updateBatchQueries_eq:
  "updateBatchQueries wc s = Inr s' \<Longrightarrow>
     s' = (if wc > mWheelQueryResults s
           then s\<lparr>mWheelQueryResults := wc, mWheelHitResults := wc,
                  mWheelRaycastBatchQuery := Some wc,
                  calls := calls s
                    @ (if mWheelRaycastBatchQuery s \<noteq> None then [BatchQuery_release] else [])
                    @ [PxScene_createBatchQuery wc]\<rparr>
           else s)"
  by (auto simp add: updateBatchQueries_def Let_def call_def split: if_splits option.splits)

lemma setupTireFrictions_eq:
  "setupTireFrictions s =
     s\<lparr>mWheelTireFrictions := True,
       calls := calls s @ (if \<not> mWheelTireFrictions s then [TireFrictions_allocate] else [])\<rparr>"
  by (simp add: setupTireFrictions_def call_def)

lemma setupWheelCache_eq:
  assumes "setupWheelCache wc s = Inr s'"
  shows "\<exists>perVehicle. s' = s\<lparr>mWheelVehiclesResultsPerVehicle := perVehicle,
                              mWheelVehiclesResultsPerWheel := wc\<rparr>"
proof -
  from assms have "s' = s\<lparr>mWheelVehiclesResultsPerVehicle := mWheelVehiclesResultsPerVehicle s',
                         mWheelVehiclesResultsPerWheel := wc\<rparr>"
    by (auto simp add: setupWheelCache_def Let_def split: sum.splits)
  then show ?thesis ..
qed

lemma runVehicleUpdates_eq:
  "runVehicleUpdates s = Inr s' \<Longrightarrow>
     s' = s\<lparr>calls := calls s
               @ (if mWheelVehiclesCache s \<noteq> []
                  then [PxVehicleSuspensionRaycasts (length (mWheelVehiclesCache s))
                          (mWheelQueryResults s),
                        PxVehicleUpdates (mLastDeltaTime s) (length (mWheelVehiclesCache s))]
                  else [])\<rparr>"
  by (auto simp add: runVehicleUpdates_def Let_def call_def split: if_splits option.splits)

lemma updateVehicles_calls:
  assumes "updateVehicles env s = Inr s'"
  shows "calls s' = calls s @ vehicleCalls env s
     \<and> (mWheelVehicles s \<noteq> [] \<longrightarrow>
          mWheelVehicles s' = steered env (mWheelVehicles s)
          \<and> mWheelVehiclesCache s' = activeDrives (mWheelVehicles s)
          \<and> mWheelVehiclesResultsPerWheel s' = activeWheels (mWheelVehicles s)
          \<and> mWheelTireFrictions s')"
proof (cases "mWheelVehicles s = []")
  case True
  with assms show ?thesis by (simp add: updateVehicles_def vehicleCalls_def)
next
  case False
  from assms False have "\<exists>vs' wc s1 s2 s3 s4.
    updateSteering env (mWheelVehicles s) 0 (s\<lparr>mWheelVehiclesCache := []\<rparr>) = Inr (vs', wc, s1)
    \<and> updateBatchQueries wc (s1\<lparr>mWheelVehicles := vs'\<rparr>) = Inr s2
    \<and> setupWheelCache wc (setupTireFrictions s2) = Inr s3
    \<and> runVehicleUpdates s3 = Inr s4
    \<and> synchronizeState (mWheelVehicles s4) 0 0 s4 = Inr s'"
    unfolding updateVehicles_def by (simp split: sum.splits prod.splits)
  then obtain vs' wc s1 s2 s3 s4 where
    1: "updateSteering env (mWheelVehicles s) 0 (s\<lparr>mWheelVehiclesCache := []\<rparr>) = Inr (vs', wc, s1)"
    and 2: "updateBatchQueries wc (s1\<lparr>mWheelVehicles := vs'\<rparr>) = Inr s2"
    and 3: "setupWheelCache wc (setupTireFrictions s2) = Inr s3"
    and 5: "runVehicleUpdates s3 = Inr s4"
    and 4: "synchronizeState (mWheelVehicles s4) 0 0 s4 = Inr s'"
    by blast
  from updateSteering_effect [OF 1] have wc: "wc = activeWheels (mWheelVehicles s)" by simp
  from updateSteering_eq [OF 1] have
    vs': "vs' = steered env (mWheelVehicles s)" and
    s1: "s1 = s\<lparr>mWheelVehiclesCache := activeDrives (mWheelVehicles s),
               calls := calls s @ inputCalls env (mLastDeltaTime s) (mWheelVehicles s)\<rparr>"
    by simp_all
  note s2 = updateBatchQueries_eq [OF 2]
  from setupWheelCache_eq [OF 3] obtain pv where
    s3: "s3 = (setupTireFrictions s2)\<lparr>mWheelVehiclesResultsPerVehicle := pv,
                                       mWheelVehiclesResultsPerWheel := wc\<rparr>"
    by blast
  note s4 = runVehicleUpdates_eq [OF 5]
  note s' = synchronizeState_eq [OF 4]
  have f2: "mWheelVehicles s2 = vs'" "mWheelVehiclesCache s2 = activeDrives (mWheelVehicles s)"
    "mLastDeltaTime s2 = mLastDeltaTime s"
    "mWheelQueryResults s2 = max (mWheelQueryResults s) wc"
    "calls s2 = calls s @ inputCalls env (mLastDeltaTime s) (mWheelVehicles s)
       @ (if wc > mWheelQueryResults s
          then (if mWheelRaycastBatchQuery s \<noteq> None then [BatchQuery_release] else [])
               @ [PxScene_createBatchQuery wc]
          else [])"
    by (simp_all add: s2 s1 max_def)
  have f3: "mWheelVehicles s3 = vs'" "mWheelVehiclesCache s3 = activeDrives (mWheelVehicles s)"
    "mLastDeltaTime s3 = mLastDeltaTime s"
    "mWheelQueryResults s3 = max (mWheelQueryResults s) wc"
    "mWheelVehiclesResultsPerWheel s3 = wc" "mWheelTireFrictions s3"
    "calls s3 = calls s2 @ (if \<not> mWheelTireFrictions s2 then [TireFrictions_allocate] else [])"
    by (simp_all add: s3 setupTireFrictions_eq f2)
  have t2: "mWheelTireFrictions s2 = mWheelTireFrictions s"
    by (simp add: s2 s1)
  have f4: "mWheelVehicles s4 = vs'" "mWheelVehiclesCache s4 = activeDrives (mWheelVehicles s)"
    "mWheelVehiclesResultsPerWheel s4 = wc" "mWheelTireFrictions s4"
    "calls s4 = calls s3
       @ (if activeDrives (mWheelVehicles s) \<noteq> []
          then [PxVehicleSuspensionRaycasts (length (activeDrives (mWheelVehicles s)))
                  (max (mWheelQueryResults s) wc),
                PxVehicleUpdates (mLastDeltaTime s) (length (activeDrives (mWheelVehicles s)))]
          else [])"
    by (simp_all add: s4 f3)
  have f5: "mWheelVehicles s' = vs'" "mWheelVehiclesCache s' = activeDrives (mWheelVehicles s)"
    "mWheelVehiclesResultsPerWheel s' = wc" "mWheelTireFrictions s'"
    "calls s' = calls s4 @ syncCalls vs' 0 0"
    by (simp_all add: s' f4)
  from False show ?thesis
    by (simp add: f5 f4 f3 f2 t2 vehicleCalls_def wc vs')
qed

lemma notifyActiveActors_eq:
  "notifyActiveActors as s = Inr s' \<Longrightarrow>
     s' = s\<lparr>calls := calls s @ map OnActiveTransformChanged (List.map_filter (userData s) as)\<rparr>"
proof (induction as arbitrary: s)
  case Nil
  then show ?case by (simp add: map_filter_simps)
next
  case (Cons a as)
  then obtain owner where o: "userData s a = Some owner"
    and r: "notifyActiveActors as (call (OnActiveTransformChanged owner) s) = Inr s'"
    by (auto split: option.splits)
  from Cons.IH [OF r] o show ?case
    by (simp add: call_def map_filter_simps)
qed

lemma CollectResults_calls:
  assumes "CollectResults env m s = Inr s'" and "mIsDuringSimulation s"
  shows "calls s' = calls s @ pipelineCalls env s
     \<and> (mWheelVehicles s \<noteq> [] \<longrightarrow>
          mWheelVehicles s' = steered env (mWheelVehicles s)
          \<and> mWheelVehiclesCache s' = activeDrives (mWheelVehicles s)
          \<and> mWheelVehiclesResultsPerWheel s' = activeWheels (mWheelVehicles s)
          \<and> mWheelTireFrictions s')"
proof -
  from assms have "\<exists>s1 s2. updateVehicles env (call Stepper_wait s) = Inr s1
      \<and> flushActiveTransforms s1 = Inr s2
      \<and> s' = (sendEvents s2)\<lparr>mIsDuringSimulation := False\<rparr>"
    by (auto simp add: CollectResults_def split: if_splits sum.splits)
  then obtain s1 s2 where
    1: "updateVehicles env (call Stepper_wait s) = Inr s1"
    and 2: "flushActiveTransforms s1 = Inr s2"
    and 3: "s' = (sendEvents s2)\<lparr>mIsDuringSimulation := False\<rparr>"
    by blast
  have v: "vehicleCalls env (call Stepper_wait s) = vehicleCalls env s"
    by (simp add: vehicleCalls_def call_def)
  from updateVehicles_calls [OF 1] have
    c1: "calls s1 = calls s @ [Stepper_wait] @ vehicleCalls env s"
    and k1: "mWheelVehicles s \<noteq> [] \<longrightarrow>
          mWheelVehicles s1 = steered env (mWheelVehicles s)
          \<and> mWheelVehiclesCache s1 = activeDrives (mWheelVehicles s)
          \<and> mWheelVehiclesResultsPerWheel s1 = activeWheels (mWheelVehicles s)
          \<and> mWheelTireFrictions s1"
    by (simp_all add: v) (simp_all add: call_def)
  from updateVehicles_effect [OF 1] have e1: "mScene s1 = mScene s" "userData s1 = userData s"
    by (simp_all add: call_def)
  from 2 obtain w where w: "mScene s1 = Some w"
    and n: "notifyActiveActors (activeActors w) s1 = Inr s2"
    by (auto simp add: flushActiveTransforms_def split: option.splits)
  note s2 = notifyActiveActors_eq [OF n]
  have c2: "calls s2 = calls s1
      @ map OnActiveTransformChanged (List.map_filter (userData s) (activeActors w))"
    by (subst s2) (simp add: e1)
  have k2: "mWheelVehicles s2 = mWheelVehicles s1" "mWheelVehiclesCache s2 = mWheelVehiclesCache s1"
    "mWheelVehiclesResultsPerWheel s2 = mWheelVehiclesResultsPerWheel s1"
    "mWheelTireFrictions s2 = mWheelTireFrictions s1"
    by (subst s2, simp)+
  have "calls s' = calls s @ pipelineCalls env s"
    using w e1 by (simp add: 3 sendEvents_def call_def c2 c1 pipelineCalls_def)
  moreover have "mWheelVehicles s' = mWheelVehicles s2" "mWheelVehiclesCache s' = mWheelVehiclesCache s2"
    "mWheelVehiclesResultsPerWheel s' = mWheelVehiclesResultsPerWheel s2"
    "mWheelTireFrictions s' = mWheelTireFrictions s2"
    by (simp_all add: 3 sendEvents_def call_def)
  ultimately show ?thesis using k1 k2 by simp
qed

text \<open>
  C9. A call to \<open>Simulate\<close> from the main thread, outside a step and on a scene with a
  world, returns; and every call that returns, whether or not the stepper dispatched a
  step, leaves the mid-step flag set and the registered vehicles as they were. The next
  \<open>CollectResults\<close> on the main thread is then not the no-op but the full pipeline:
  whatever it returns has the flag cleared and has made exactly the calls of the pipeline,
  which are the wait on the stepper, the calls of the vehicle stage (input smoothing per
  active vehicle, batch query, tire frictions, batched raycast and update with the last
  recorded delta, wheel synchronisation per active vehicle), the transform notice to the
  owner of every active actor, and the four event calls; with vehicles registered it
  leaves the steered vehicles, the cache of the active drives, the per-wheel buffer at the
  active wheel count and the tire frictions allocated, and the shared wheel-query buffer
  at the larger of its size and the active wheel count. It does return when the world
  exists, every registered vehicle has a drive, the gear setter changes gears only and
  every active actor has its owner. Among all operations of the scene, only
  \<open>CollectResults\<close> takes the flag from set to cleared.
\<close>

theorem mid_step_flag_after_Simulate:
  "(\<not> IsDuringSimulation s \<and> mScene s \<noteq> None \<longrightarrow> (\<exists>s1. Simulate env True dt s = Inr s1))
   \<and> (Simulate env m dt s = Inr s1 \<longrightarrow>
      IsDuringSimulation s1
      \<and> mWheelVehicles s1 = mWheelVehicles s
      \<and> CollectResults env True s1 \<noteq> Inr s1
      \<and> (\<forall>s2. CollectResults env True s1 = Inr s2 \<longrightarrow>
            \<not> IsDuringSimulation s2
            \<and> calls s2 =
                calls s1 @ [Stepper_wait] @ vehicleCalls env s1
                @ map OnActiveTransformChanged
                    (List.map_filter (userData s1)
                       (case mScene s1 of None \<Rightarrow> [] | Some w \<Rightarrow> activeActors w))
                @ [Events_CollectResults, Events_SendTriggerEvents,
                   Events_SendCollisionEvents, Events_SendJointEvents]
            \<and> calls s2 = calls s1 @ pipelineCalls env s1
            \<and> prefix (calls s1 @ [Stepper_wait]) (calls s2)
            \<and> suffix [Events_CollectResults, Events_SendTriggerEvents,
                       Events_SendCollisionEvents, Events_SendJointEvents] (calls s2)
            \<and> mWheelQueryResults s2 =
                max (mWheelQueryResults s1) (activeWheels (mWheelVehicles s1))
            \<and> (mWheelVehicles s1 \<noteq> [] \<longrightarrow>
                  mWheelVehicles s2 = steered env (mWheelVehicles s1)
                  \<and> mWheelVehiclesCache s2 = activeDrives (mWheelVehicles s1)
                  \<and> mWheelVehiclesResultsPerWheel s2 = activeWheels (mWheelVehicles s1)
                  \<and> mWheelTireFrictions s2))
      \<and> (gearSetterKeeps env \<and> haveDrives (mWheelVehicles s1) \<and> mScene s1 \<noteq> None
            \<and> ownersPresent s1 \<longrightarrow>
            (\<exists>s2. CollectResults env True s1 = Inr s2)))
   \<and> (perform env m op s = Inr s' \<and> IsDuringSimulation s \<and> \<not> IsDuringSimulation s' \<longrightarrow>
        op = Op_CollectResults)"
proof (intro conjI impI)
  assume "\<not> IsDuringSimulation s \<and> mScene s \<noteq> None"
  then show "\<exists>s1. Simulate env True dt s = Inr s1"
    by (intro Simulate_total) (simp_all add: IsDuringSimulation_def)
next
  assume a: "Simulate env m dt s = Inr s1"
  note f = Simulate_flag [OF a]
  show "IsDuringSimulation s1" using f by (simp add: IsDuringSimulation_def)
  show "mWheelVehicles s1 = mWheelVehicles s" using Simulate_effect [OF a] by simp
  show "CollectResults env True s1 \<noteq> Inr s1"
  proof
    assume "CollectResults env True s1 = Inr s1"
    from CollectResults_effect [OF this] f show False by simp
  qed
  show "\<forall>s2. CollectResults env True s1 = Inr s2 \<longrightarrow>
            \<not> IsDuringSimulation s2
            \<and> calls s2 =
                calls s1 @ [Stepper_wait] @ vehicleCalls env s1
                @ map OnActiveTransformChanged
                    (List.map_filter (userData s1)
                       (case mScene s1 of None \<Rightarrow> [] | Some w \<Rightarrow> activeActors w))
                @ [Events_CollectResults, Events_SendTriggerEvents,
                   Events_SendCollisionEvents, Events_SendJointEvents]
            \<and> calls s2 = calls s1 @ pipelineCalls env s1
            \<and> prefix (calls s1 @ [Stepper_wait]) (calls s2)
            \<and> suffix [Events_CollectResults, Events_SendTriggerEvents,
                       Events_SendCollisionEvents, Events_SendJointEvents] (calls s2)
            \<and> mWheelQueryResults s2 =
                max (mWheelQueryResults s1) (activeWheels (mWheelVehicles s1))
            \<and> (mWheelVehicles s1 \<noteq> [] \<longrightarrow>
                  mWheelVehicles s2 = steered env (mWheelVehicles s1)
                  \<and> mWheelVehiclesCache s2 = activeDrives (mWheelVehicles s1)
                  \<and> mWheelVehiclesResultsPerWheel s2 = activeWheels (mWheelVehicles s1)
                  \<and> mWheelTireFrictions s2)"
  proof (intro allI impI)
    fix s2 assume c: "CollectResults env True s1 = Inr s2"
    from f have d: "mIsDuringSimulation s1" by simp
    note e = CollectResults_effect [OF c d]
    note k = CollectResults_calls [OF c d]
    from k have p: "calls s2 = calls s1 @ pipelineCalls env s1" by simp
    from e have q: "mWheelQueryResults s2 =
                max (mWheelQueryResults s1) (activeWheels (mWheelVehicles s1))"
      by (simp add: activeWheels_Nil)
    from e have "\<not> IsDuringSimulation s2" "prefix (calls s1 @ [Stepper_wait]) (calls s2)"
      "suffix [Events_CollectResults, Events_SendTriggerEvents,
               Events_SendCollisionEvents, Events_SendJointEvents] (calls s2)"
      by (simp_all add: IsDuringSimulation_def)
    with p q k show "\<not> IsDuringSimulation s2
            \<and> calls s2 =
                calls s1 @ [Stepper_wait] @ vehicleCalls env s1
                @ map OnActiveTransformChanged
                    (List.map_filter (userData s1)
                       (case mScene s1 of None \<Rightarrow> [] | Some w \<Rightarrow> activeActors w))
                @ [Events_CollectResults, Events_SendTriggerEvents,
                   Events_SendCollisionEvents, Events_SendJointEvents]
            \<and> calls s2 = calls s1 @ pipelineCalls env s1
            \<and> prefix (calls s1 @ [Stepper_wait]) (calls s2)
            \<and> suffix [Events_CollectResults, Events_SendTriggerEvents,
                       Events_SendCollisionEvents, Events_SendJointEvents] (calls s2)
            \<and> mWheelQueryResults s2 =
                max (mWheelQueryResults s1) (activeWheels (mWheelVehicles s1))
            \<and> (mWheelVehicles s1 \<noteq> [] \<longrightarrow>
                  mWheelVehicles s2 = steered env (mWheelVehicles s1)
                  \<and> mWheelVehiclesCache s2 = activeDrives (mWheelVehicles s1)
                  \<and> mWheelVehiclesResultsPerWheel s2 = activeWheels (mWheelVehicles s1)
                  \<and> mWheelTireFrictions s2)"
      by (simp add: pipelineCalls_def)
  qed
  assume "gearSetterKeeps env \<and> haveDrives (mWheelVehicles s1) \<and> mScene s1 \<noteq> None
            \<and> ownersPresent s1"
  with f show "\<exists>s2. CollectResults env True s1 = Inr s2"
    by (intro CollectResults_total) simp_all
next
  assume "perform env m op s = Inr s' \<and> IsDuringSimulation s \<and> \<not> IsDuringSimulation s'"
  then show "op = Op_CollectResults"
    using perform_keeps_flag [of env m op s s'] by (auto simp add: IsDuringSimulation_def)
qed

theorem mid_step_flag_after_Simulate_witness:
  "Simulate env0 True 0 scene_cars = Inr scene_cars_skipped
   \<and> IsDuringSimulation scene_cars_skipped
   \<and> mLastDeltaTime scene_cars_skipped = 0
   \<and> (\<exists>s2. CollectResults env0 True scene_cars_skipped = Inr s2
          \<and> \<not> IsDuringSimulation s2
          \<and> calls s2 =
               [Stepper_wait,
                SmoothRawInputsAndSetAnalogInputs Drive4W (AnalogInputs 0 0 0 0) 0,
                PxScene_createBatchQuery 4, TireFrictions_allocate,
                PxVehicleSuspensionRaycasts 1 4, PxVehicleUpdates 0 1,
                SynchronizeWheels 1 0, OnActiveTransformChanged 8,
                Events_CollectResults, Events_SendTriggerEvents,
                Events_SendCollisionEvents, Events_SendJointEvents]
          \<and> mWheelQueryResults s2 = 4
          \<and> mWheelVehiclesCache s2 = [\<lparr>drive_id = 4, getNbWheels = 4\<rparr>]
          \<and> mWheelVehiclesResultsPerWheel s2 = 4
          \<and> mWheelTireFrictions s2
          \<and> (\<forall>op. perform env0 True op scene_cars_skipped = Inr s2 \<longrightarrow> op = Op_CollectResults))"
proof -
  have "\<not> mIsDuringSimulation scene_cars" "mScene scene_cars \<noteq> None"
    by (simp_all add: scene_cars_def scene0_def)
  then have "FlushRequests scene_cars = Inr (flushed scene_cars)"
    by (intro FlushRequests_flushed) simp_all
  then have sim: "Simulate env0 True 0 scene_cars = Inr scene_cars_skipped"
    by (simp add: Simulate_def Let_def Stepper_advance_def Stepper_Setup_def Math_Clamp_def
          flushed_def flushOrder_def scene_cars_skipped_def scene_skipped_def scene_cars_def
          scene0_def env0_def restrict_map_def)
  have pre: "gearSetterKeeps env0 \<and> haveDrives (mWheelVehicles scene_cars_skipped)
      \<and> mScene scene_cars_skipped \<noteq> None \<and> ownersPresent scene_cars_skipped"
    by (simp add: gearSetterKeeps_def haveDrives_def ownersPresent_def env0_def car_def
          scene_cars_skipped_def scene_skipped_def scene0_def world0_def)
  note t = mid_step_flag_after_Simulate
             [where env = env0 and m = True and dt = 0 and s = scene_cars
                and ?s1.0 = scene_cars_skipped]
  from t sim have A: "IsDuringSimulation scene_cars_skipped" by blast
  from t sim pre obtain s2 where C: "CollectResults env0 True scene_cars_skipped = Inr s2"
    by blast
  from t sim C have B: "\<not> IsDuringSimulation s2
      \<and> calls s2 = calls scene_cars_skipped @ pipelineCalls env0 scene_cars_skipped
      \<and> mWheelQueryResults s2 =
          max (mWheelQueryResults scene_cars_skipped)
            (activeWheels (mWheelVehicles scene_cars_skipped))
      \<and> (mWheelVehicles scene_cars_skipped \<noteq> [] \<longrightarrow>
            mWheelVehicles s2 = steered env0 (mWheelVehicles scene_cars_skipped)
            \<and> mWheelVehiclesCache s2 = activeDrives (mWheelVehicles scene_cars_skipped)
            \<and> mWheelVehiclesResultsPerWheel s2 = activeWheels (mWheelVehicles scene_cars_skipped)
            \<and> mWheelTireFrictions s2)"
    by blast
  have D: "\<forall>op. perform env0 True op scene_cars_skipped = Inr s2 \<longrightarrow> op = Op_CollectResults"
    using mid_step_flag_after_Simulate
            [where env = env0 and m = True and s = scene_cars_skipped and s' = s2] A B
    by blast
  have v: "mWheelVehicles scene_cars_skipped = [car False 2, car True 4]"
    "calls scene_cars_skipped = []" "mWheelQueryResults scene_cars_skipped = 0"
    "mLastDeltaTime scene_cars_skipped = 0"
    by (simp_all add: scene_cars_skipped_def scene_skipped_def scene0_def)
  have pc: "pipelineCalls env0 scene_cars_skipped =
               [Stepper_wait,
                SmoothRawInputsAndSetAnalogInputs Drive4W (AnalogInputs 0 0 0 0) 0,
                PxScene_createBatchQuery 4, TireFrictions_allocate,
                PxVehicleSuspensionRaycasts 1 4, PxVehicleUpdates 0 1,
                SynchronizeWheels 1 0, OnActiveTransformChanged 8,
                Events_CollectResults, Events_SendTriggerEvents,
                Events_SendCollisionEvents, Events_SendJointEvents]"
    by (simp add: pipelineCalls_def vehicleCalls_def smoothCalls_def VehicleInput_def
          steered_def activeWheels_def map_filter_simps Let_def car_def env0_def
          scene_cars_skipped_def scene_skipped_def scene0_def world0_def)
  from B have "calls s2 = pipelineCalls env0 scene_cars_skipped"
    "mWheelQueryResults s2 = 4"
    "mWheelVehiclesCache s2 = [\<lparr>drive_id = 4, getNbWheels = 4\<rparr>]"
    "mWheelVehiclesResultsPerWheel s2 = 4" "mWheelTireFrictions s2"
    by (simp_all add: v activeWheels_def car_def)
  with sim A B C D v(4) show ?thesis by (auto simp add: pc)
qed

lemma foldl_max_ge: "(a::nat) \<le> foldl max a xs"
  by (induction xs arbitrary: a) (auto intro: order_trans [OF max.cobounded1])

lemma runFrames_effect:
  "runFrames env frames s = Inr s' \<Longrightarrow>
     mWheelQueryResults s' = foldl max (mWheelQueryResults s) (map (\<lambda>f. activeWheels (fst f)) frames)
     \<and> (mWheelHitResults s = mWheelQueryResults s \<longrightarrow> mWheelHitResults s' = mWheelQueryResults s')"
proof (induction frames arbitrary: s)
  case Nil
  then show ?case by simp
next
  case (Cons f frames)
  obtain vs dt where f: "f = (vs, dt)" by (cases f)
  from Cons.prems(1) obtain s1 s2 where
    1: "Simulate env True dt (s\<lparr>mWheelVehicles := vs\<rparr>) = Inr s1"
    and 2: "CollectResults env True s1 = Inr s2"
    and 3: "runFrames env frames s2 = Inr s'"
    by (auto simp add: f split: sum.splits)
  from Simulate_effect [OF 1] Simulate_flag [OF 1] have
    e1: "mWheelQueryResults s1 = mWheelQueryResults s" "mWheelHitResults s1 = mWheelHitResults s"
      "mWheelVehicles s1 = vs" "mIsDuringSimulation s1"
    by simp_all
  from CollectResults_effect [OF 2 e1(4)] e1(1-3) have
    q: "mWheelQueryResults s2 = max (mWheelQueryResults s) (activeWheels vs)"
    and h: "mWheelHitResults s = mWheelQueryResults s \<longrightarrow> mWheelHitResults s2 = mWheelQueryResults s2"
    by (auto simp add: activeWheels_Nil max_def)
  from Cons.IH [OF 3] h show ?case by (simp add: q f)
qed

lemma runFrames_total:
  assumes "gearSetterKeeps env"
  shows "list_all (\<lambda>f. haveDrives (fst f)) frames \<Longrightarrow> mScene s \<noteq> None \<Longrightarrow>
     \<not> mIsDuringSimulation s \<Longrightarrow> ownersKept s \<Longrightarrow> \<exists>s'. runFrames env frames s = Inr s'"
proof (induction frames arbitrary: s)
  case Nil
  then show ?case by simp
next
  case (Cons f frames)
  obtain vs dt where f: "f = (vs, dt)" by (cases f)
  have k0: "ownersKept (s\<lparr>mWheelVehicles := vs\<rparr>)"
    using Cons.prems(4) by (cases "mScene s") (simp_all add: ownersKept_def)
  have "\<exists>s1. Simulate env True dt (s\<lparr>mWheelVehicles := vs\<rparr>) = Inr s1"
    using Cons.prems by (intro Simulate_total) simp_all
  then obtain s1 where 1: "Simulate env True dt (s\<lparr>mWheelVehicles := vs\<rparr>) = Inr s1" ..
  from Simulate_effect [OF 1] Simulate_flag [OF 1] Cons.prems k0 have
    e1: "mWheelVehicles s1 = vs" "mIsDuringSimulation s1" "mStepper s1 \<noteq> None" "mScene s1 \<noteq> None"
      "ownersKept s1"
    by simp_all
  from e1(5) have "ownersPresent s1"
    by (cases "mScene s1") (auto simp add: ownersKept_def ownersPresent_def list_all_iff)
  then have "\<exists>s2. CollectResults env True s1 = Inr s2"
    using Cons.prems(1) e1 by (intro CollectResults_total [OF assms]) (simp_all add: f)
  then obtain s2 where 2: "CollectResults env True s1 = Inr s2" ..
  note e2 = CollectResults_effect [OF 2 e1(2)]
  from e2 e1(4) have "mScene s2 \<noteq> None" "\<not> mIsDuringSimulation s2"
    by simp_all
  moreover from e2 e1(5) have "ownersKept s2"
    by (cases "mScene s1") (simp_all add: ownersKept_def)
  ultimately have "mScene s2 \<noteq> None" "\<not> mIsDuringSimulation s2" "ownersKept s2"
    by simp_all
  with Cons.prems(1) have "\<exists>s'. runFrames env frames s2 = Inr s'"
    by (intro Cons.IH) simp_all
  with 1 2 show ?case by (simp add: f)
qed

text \<open>
  C7. One \<open>CollectResults\<close> call leaves the size of the shared wheel-query buffer as
  it is unless it runs mid-step with more wheels on the active vehicles than the buffer
  holds, in which case it grows to that wheel count; the touch buffer, sized together with
  it, stays equal to it. Over any sequence of frames (each registering its vehicles,
  simulating and collecting), the buffers end at the largest of the initial size and the
  frames' active wheel counts, never below the initial size; the sequence runs to its end
  when it starts outside a step on a scene with a world, all vehicles have drives, the
  gear setter changes gears only, and the active actors have their owners and are not
  queued as dead materials.
\<close>

theorem wheel_buffers_high_water:
  "(CollectResults env m s = Inr s' \<longrightarrow>
      mWheelQueryResults s' =
        (if mIsDuringSimulation s \<and> mWheelQueryResults s < activeWheels (mWheelVehicles s)
         then activeWheels (mWheelVehicles s) else mWheelQueryResults s)
      \<and> (mWheelHitResults s = mWheelQueryResults s \<longrightarrow> mWheelHitResults s' = mWheelQueryResults s'))
   \<and> (runFrames env frames s = Inr s'' \<longrightarrow>
      mWheelQueryResults s'' =
        foldl max (mWheelQueryResults s) (map (\<lambda>f. activeWheels (fst f)) frames)
      \<and> mWheelQueryResults s \<le> mWheelQueryResults s''
      \<and> (mWheelHitResults s = mWheelQueryResults s \<longrightarrow> mWheelHitResults s'' = mWheelQueryResults s''))
   \<and> (gearSetterKeeps env \<and> list_all (\<lambda>f. haveDrives (fst f)) frames \<and> mScene s \<noteq> None
         \<and> \<not> mIsDuringSimulation s \<and> ownersKept s \<longrightarrow>
      (\<exists>s''. runFrames env frames s = Inr s''))"
proof (intro conjI impI)
  assume a: "CollectResults env m s = Inr s'"
  show "mWheelQueryResults s' =
              (if mIsDuringSimulation s \<and> mWheelQueryResults s < activeWheels (mWheelVehicles s)
               then activeWheels (mWheelVehicles s) else mWheelQueryResults s)"
  proof (cases "mIsDuringSimulation s")
    case True
    from CollectResults_effect [OF a True] True show ?thesis
      by (auto simp add: activeWheels_Nil max_def)
  next
    case False
    with a show ?thesis by (simp add: CollectResults_def)
  qed
  assume h: "mWheelHitResults s = mWheelQueryResults s"
  show "mWheelHitResults s' = mWheelQueryResults s'"
  proof (cases "mIsDuringSimulation s")
    case True
    from CollectResults_effect [OF a True] True h show ?thesis
      by (auto simp add: activeWheels_Nil max_def)
  next
    case False
    with a h show ?thesis by (simp add: CollectResults_def)
  qed
next
  assume b: "runFrames env frames s = Inr s''"
  from runFrames_effect [OF b]
  show q: "mWheelQueryResults s'' =
          foldl max (mWheelQueryResults s) (map (\<lambda>f. activeWheels (fst f)) frames)"
    by simp
  then show "mWheelQueryResults s \<le> mWheelQueryResults s''"
    by (simp add: foldl_max_ge)
  assume "mWheelHitResults s = mWheelQueryResults s"
  with runFrames_effect [OF b] show "mWheelHitResults s'' = mWheelQueryResults s''"
    by simp
next
  assume "gearSetterKeeps env \<and> list_all (\<lambda>f. haveDrives (fst f)) frames \<and> mScene s \<noteq> None
          \<and> \<not> mIsDuringSimulation s \<and> ownersKept s"
  then show "\<exists>s''. runFrames env frames s = Inr s''"
    by (intro runFrames_total) simp_all
qed

theorem wheel_buffers_high_water_witness:
  "(\<exists>s'. CollectResults env0 True (scene_stepping\<lparr>mWheelVehicles := [car True 4]\<rparr>) = Inr s'
        \<and> mWheelQueryResults s' = 4 \<and> mWheelHitResults s' = 4)
   \<and> (\<exists>s''. runFrames env0
               three_frames scene0
              = Inr s''
         \<and> mWheelQueryResults s'' = 10 \<and> mWheelHitResults s'' = 10)"
proof -
  have g: "gearSetterKeeps env0"
    by (simp add: gearSetterKeeps_def env0_def)
  have "\<exists>s'. CollectResults env0 True (scene_stepping\<lparr>mWheelVehicles := [car True 4]\<rparr>) = Inr s'"
    by (intro CollectResults_total [OF g])
       (simp_all add: haveDrives_def ownersPresent_def car_def scene_stepping_def scene0_def
          world0_def)
  then obtain s' where
    1: "CollectResults env0 True (scene_stepping\<lparr>mWheelVehicles := [car True 4]\<rparr>) = Inr s'" ..
  have h: "mWheelHitResults (scene_stepping\<lparr>mWheelVehicles := [car True 4]\<rparr>)
           = mWheelQueryResults (scene_stepping\<lparr>mWheelVehicles := [car True 4]\<rparr>)"
    by (simp add: scene_stepping_def scene0_def)
  have h2: "mWheelHitResults scene0 = mWheelQueryResults scene0"
    by (simp add: scene0_def)
  have p: "gearSetterKeeps env0
      \<and> list_all (\<lambda>f. haveDrives (fst f))
          three_frames
      \<and> mScene scene0 \<noteq> None \<and> \<not> mIsDuringSimulation scene0 \<and> ownersKept scene0"
    using g
    by (simp add: haveDrives_def ownersKept_def car_def scene0_def world0_def three_frames_def)
  from wheel_buffers_high_water
         [where env = env0 and m = True and s' = s'
            and s = "scene_stepping\<lparr>mWheelVehicles := [car True 4]\<rparr>"] 1 h
  have "mWheelQueryResults s' =
          (if mIsDuringSimulation (scene_stepping\<lparr>mWheelVehicles := [car True 4]\<rparr>)
              \<and> mWheelQueryResults (scene_stepping\<lparr>mWheelVehicles := [car True 4]\<rparr>)
                  < activeWheels (mWheelVehicles (scene_stepping\<lparr>mWheelVehicles := [car True 4]\<rparr>))
           then activeWheels (mWheelVehicles (scene_stepping\<lparr>mWheelVehicles := [car True 4]\<rparr>))
           else mWheelQueryResults (scene_stepping\<lparr>mWheelVehicles := [car True 4]\<rparr>))
        \<and> mWheelHitResults s' = mWheelQueryResults s'"
    by blast
  then have a: "mWheelQueryResults s' = 4 \<and> mWheelHitResults s' = 4"
    by (simp add: activeWheels_def car_def scene_stepping_def scene0_def)
  from wheel_buffers_high_water
         [where env = env0 and s = scene0 and frames = three_frames] p
  obtain s'' where
    f: "runFrames env0
          three_frames scene0
          = Inr s''"
    by blast
  from wheel_buffers_high_water
         [where env = env0 and s = scene0 and s'' = s'' and frames = three_frames] f h2
  have "mWheelQueryResults s'' =
          foldl max (mWheelQueryResults scene0)
            (map (\<lambda>f. activeWheels (fst f))
               three_frames)
        \<and> mWheelHitResults s'' = mWheelQueryResults s''"
    by blast
  then have b: "mWheelQueryResults s'' = 10 \<and> mWheelHitResults s'' = 10"
    by (simp add: activeWheels_def car_def scene0_def three_frames_def)
  from 1 a f b show ?thesis by blast
qed

end
